theory Spec2Isabelle
  imports Main "HOL-Library.Char_ord" "HOL-Library.List_Lexorder" "HOL-Library.Multiset"
begin

section \<open>Data model (App.tsx)\<close>

text \<open>
  \<^verbatim>\<open>export type Priority = 'low' | 'medium' | 'high' | 'urgent';\<close>
  \<^verbatim>\<open>export type Category = 'work' | 'personal' | 'health' | 'social' | 'learning' | 'other';\<close>
\<close>

datatype Priority = Low | Medium | High | Urgent

datatype Category = Work | Personal | Health | Social | Learning | Other

datatype Recurring = Daily | Weekly | Monthly

text \<open>
  The \<^verbatim>\<open>Task\<close> interface. Optional properties (\<^verbatim>\<open>time?\<close>, \<^verbatim>\<open>recurring?\<close>,
  \<^verbatim>\<open>reminder?\<close>, \<^verbatim>\<open>dependencies?\<close>) are options, \<open>None\<close> standing for
  \<^verbatim>\<open>undefined\<close>. The field \<^verbatim>\<open>id\<close> is called \<open>task_id\<close>, since \<open>id\<close> is the
  identity function of HOL.
\<close>

record Task =
  task_id :: string
  title :: string
  description :: string
  date :: string
  time :: "string option"
  priority :: Priority
  category :: Category
  completed :: bool
  recurring :: "Recurring option"
  reminder :: "bool option"
  dependencies :: "string list option"
  createdAt :: string

text \<open>
  \<^verbatim>\<open>Partial<Task>\<close>: every property may be absent (\<open>None\<close>). A present optional
  property may itself hold \<^verbatim>\<open>undefined\<close>, as in \<^verbatim>\<open>time: time || undefined\<close> of the
  task modal, hence the nested options.
\<close>

record TaskUpdates =
  u_id :: "string option"
  u_title :: "string option"
  u_description :: "string option"
  u_date :: "string option"
  u_time :: "string option option"
  u_priority :: "Priority option"
  u_category :: "Category option"
  u_completed :: "bool option"
  u_recurring :: "Recurring option option"
  u_reminder :: "bool option option"
  u_dependencies :: "string list option option"
  u_createdAt :: "string option"

definition orElse :: "'a option \<Rightarrow> 'a \<Rightarrow> 'a" where
  "orElse u v = (case u of None \<Rightarrow> v | Some w \<Rightarrow> w)"

text \<open>The object spread \<^verbatim>\<open>{ ...t, ...updates }\<close>: a present property of the updates wins.\<close>

definition spread :: "Task \<Rightarrow> TaskUpdates \<Rightarrow> Task" where
  "spread t u =
     \<lparr> task_id = orElse (u_id u) (task_id t),
       title = orElse (u_title u) (title t),
       description = orElse (u_description u) (description t),
       date = orElse (u_date u) (date t),
       time = orElse (u_time u) (time t),
       priority = orElse (u_priority u) (priority t),
       category = orElse (u_category u) (category t),
       completed = orElse (u_completed u) (completed t),
       recurring = orElse (u_recurring u) (recurring t),
       reminder = orElse (u_reminder u) (reminder t),
       dependencies = orElse (u_dependencies u) (dependencies t),
       createdAt = orElse (u_createdAt u) (createdAt t) \<rparr>"

section \<open>Task store (App.tsx)\<close>

text \<open>
  The setters replace the task array of the component state; the model returns the new
  array.
  \<^verbatim>\<open>setTasks(tasks.map(t => (t.id === id ? { ...t, ...updates } : t)))\<close>
\<close>

definition updateTask :: "string \<Rightarrow> TaskUpdates \<Rightarrow> Task list \<Rightarrow> Task list" where
  "updateTask i updates tasks = map (\<lambda>t. if task_id t = i then spread t updates else t) tasks"

text \<open>\<^verbatim>\<open>setTasks(tasks.filter(t => t.id !== id))\<close>\<close>

definition deleteTask :: "string \<Rightarrow> Task list \<Rightarrow> Task list" where
  "deleteTask i tasks = filter (\<lambda>t. task_id t \<noteq> i) tasks"

text \<open>\<^verbatim>\<open>setTasks(tasks.map(t => (t.id === id ? { ...t, completed: !t.completed } : t)))\<close>\<close>

definition toggleTaskComplete :: "string \<Rightarrow> Task list \<Rightarrow> Task list" where
  "toggleTaskComplete i tasks =
     map (\<lambda>t. if task_id t = i then t\<lparr>completed := \<not> completed t\<rparr> else t) tasks"

section \<open>Month view: heat-map load (CalendarMonthView.tsx)\<close>

text \<open>The union type \<^verbatim>\<open>'none' | 'low' | 'medium' | 'high' | 'urgent'\<close> of \<^verbatim>\<open>taskLoad\<close>.\<close>

datatype TaskLoad = LoadNone | LoadLow | LoadMedium | LoadHigh | LoadUrgent

text \<open>
  \<^verbatim>\<open>
  const getTaskLoad = (date: string) => {
    const dayTasks = tasks.filter(t => t.date === date);
    const urgentCount = dayTasks.filter(t => t.priority === 'urgent').length;
    const highCount = dayTasks.filter(t => t.priority === 'high').length;
    if (urgentCount > 0) return 'urgent';
    if (highCount > 1) return 'high';
    if (dayTasks.length > 3) return 'medium';
    if (dayTasks.length > 0) return 'low';
    return 'none';
  };
  \<close>
\<close>

definition getTaskLoad :: "Task list \<Rightarrow> string \<Rightarrow> TaskLoad" where
  "getTaskLoad tasks d =
     (let dayTasks = filter (\<lambda>t. date t = d) tasks;
          urgentCount = length (filter (\<lambda>t. priority t = Urgent) dayTasks);
          highCount = length (filter (\<lambda>t. priority t = High) dayTasks)
      in if urgentCount > 0 then LoadUrgent
         else if highCount > 1 then LoadHigh
         else if length dayTasks > 3 then LoadMedium
         else if length dayTasks > 0 then LoadLow
         else LoadNone)"

text \<open>Example tasks used to run the definitions on concrete inputs.\<close>

definition mkTask :: "string \<Rightarrow> string \<Rightarrow> string option \<Rightarrow> Priority \<Rightarrow> bool \<Rightarrow> Task" where
  "mkTask i d tm p c =
     \<lparr> task_id = i, title = i, description = [], date = d, time = tm, priority = p,
       category = Personal, completed = c, recurring = None, reminder = None,
       dependencies = None, createdAt = [] \<rparr>"

definition noUpdates :: TaskUpdates where
  "noUpdates =
     \<lparr> u_id = None, u_title = None, u_description = None, u_date = None, u_time = None,
       u_priority = None, u_category = None, u_completed = None, u_recurring = None,
       u_reminder = None, u_dependencies = None, u_createdAt = None \<rparr>"

section \<open>Goal tracker (GoalTracker.tsx)\<close>

text \<open>
  The \<^verbatim>\<open>Goal\<close> interface. \<^verbatim>\<open>target\<close> and \<^verbatim>\<open>current\<close> are JavaScript numbers,
  that is, doubles. They hold whole numbers (\<^verbatim>\<open>parseInt(target)\<close>, \<^verbatim>\<open>0\<close>, and steps of
  one) and are integers here; the arithmetic on them is that of doubles, see
  \<open>roundToDouble\<close> below.
\<close>

record Goal =
  goal_id :: string
  goal_title :: string
  target :: int
  current :: int
  month :: string
  goal_category :: Category

record GoalUpdates =
  g_id :: "string option"
  g_title :: "string option"
  g_target :: "int option"
  g_current :: "int option"
  g_month :: "string option"
  g_category :: "Category option"

definition spreadGoal :: "Goal \<Rightarrow> GoalUpdates \<Rightarrow> Goal" where
  "spreadGoal g u =
     \<lparr> goal_id = orElse (g_id u) (goal_id g),
       goal_title = orElse (g_title u) (goal_title g),
       target = orElse (g_target u) (target g),
       current = orElse (g_current u) (current g),
       month = orElse (g_month u) (month g),
       goal_category = orElse (g_category u) (goal_category g) \<rparr>"

text \<open>\<^verbatim>\<open>setGoals(goals.map(g => (g.id === id ? { ...g, ...updates } : g)))\<close> (App.tsx)\<close>

definition updateGoal :: "string \<Rightarrow> GoalUpdates \<Rightarrow> Goal list \<Rightarrow> Goal list" where
  "updateGoal i updates goals = map (\<lambda>g. if goal_id g = i then spreadGoal g updates else g) goals"

text \<open>The object literal \<^verbatim>\<open>{ current: v }\<close>.\<close>

definition currentUpdate :: "int \<Rightarrow> GoalUpdates" where
  "currentUpdate v =
     \<lparr> g_id = None, g_title = None, g_target = None, g_current = Some v, g_month = None,
       g_category = None \<rparr>"

text \<open>
  A sum or a difference of doubles is the exact result rounded to the nearest double,
  a tie going to the double with the even significand. A double has a significand of 53
  bits: a whole number of at most 53 bits is a double, and a larger one is rounded to
  a multiple of the power of two that leaves 53 bits. \<open>bitLength n\<close> is the number of
  bits of \<open>n\<close>. (The largest finite double is not reached by steps of one.)
\<close>

fun bitLength :: "nat \<Rightarrow> nat" where
  "bitLength n = (if n = 0 then 0 else Suc (bitLength (n div 2)))"

declare bitLength.simps [simp del]

definition roundToDouble :: "int \<Rightarrow> int" where
  "roundToDouble x =
     (let a = nat \<bar>x\<bar>;
          ulp = 2 ^ (bitLength a - 53);
          q = a div ulp;
          r = a mod ulp;
          m = (if 2 * r < ulp \<or> (2 * r = ulp \<and> even q) then q else q + 1)
      in sgn x * int (m * ulp))"

text \<open>
  \<^verbatim>\<open>
  const incrementGoal = (id: string) => {
    const goal = goals.find(g => g.id === id);
    if (goal && goal.current < goal.target) {
      onUpdateGoal(id, { current: goal.current + 1 });
    }
  };
  const decrementGoal = (id: string) => {
    const goal = goals.find(g => g.id === id);
    if (goal && goal.current > 0) {
      onUpdateGoal(id, { current: goal.current - 1 });
    }
  };
  \<close>
  \<^verbatim>\<open>onUpdateGoal\<close> is \<open>updateGoal\<close>; when the guard fails nothing is called and the goals
  stay as they are.
\<close>

definition incrementGoal :: "string \<Rightarrow> Goal list \<Rightarrow> Goal list" where
  "incrementGoal i goals =
     (case find (\<lambda>g. goal_id g = i) goals of
        None \<Rightarrow> goals
      | Some goal \<Rightarrow>
          if current goal < target goal
          then updateGoal i (currentUpdate (roundToDouble (current goal + 1))) goals
          else goals)"

definition decrementGoal :: "string \<Rightarrow> Goal list \<Rightarrow> Goal list" where
  "decrementGoal i goals =
     (case find (\<lambda>g. goal_id g = i) goals of
        None \<Rightarrow> goals
      | Some goal \<Rightarrow>
          if current goal > 0
          then updateGoal i (currentUpdate (roundToDouble (current goal - 1))) goals
          else goals)"

definition mkGoal :: "string \<Rightarrow> int \<Rightarrow> int \<Rightarrow> Goal" where
  "mkGoal i tg c =
     \<lparr> goal_id = i, goal_title = i, target = tg, current = c, month = ''2024-06'',
       goal_category = Personal \<rparr>"

section \<open>Focus mode: the pomodoro timer (FocusMode.tsx)\<close>

text \<open>
  The four state variables of the component:
  \<^verbatim>\<open>
  const [pomodoroTime, setPomodoroTime] = useState(25 * 60);
  const [isRunning, setIsRunning] = useState(false);
  const [isBreak, setIsBreak] = useState(false);
  const [completedPomodoros, setCompletedPomodoros] = useState(0);
  \<close>
\<close>

record FocusState =
  pomodoroTime :: int
  isRunning :: bool
  isBreak :: bool
  completedPomodoros :: int

definition initialFocusState :: FocusState where
  "initialFocusState =
     \<lparr> pomodoroTime = 25 * 60, isRunning = False, isBreak = False, completedPomodoros = 0 \<rparr>"

text \<open>
  The effect, run after every render in which \<^verbatim>\<open>isRunning\<close>, \<^verbatim>\<open>pomodoroTime\<close> or
  \<^verbatim>\<open>isBreak\<close> changed:
  \<^verbatim>\<open>
  if (isRunning && pomodoroTime > 0) {
    interval = setInterval(() => { setPomodoroTime(prev => prev - 1); }, 1000);
  } else if (pomodoroTime === 0) {
    setIsRunning(false);
    if (isBreak) {
      setPomodoroTime(25 * 60);
      setIsBreak(false);
    } else {
      setCompletedPomodoros(prev => prev + 1);
      setPomodoroTime(5 * 60);
      setIsBreak(true);
    }
  }
  return () => clearInterval(interval);
  \<close>
  \<open>intervalActive\<close> says whether the effect has armed the interval in a state;
  \<open>timerEffect\<close> is what the effect does to the state variables.
\<close>

definition intervalActive :: "FocusState \<Rightarrow> bool" where
  "intervalActive s = (isRunning s \<and> pomodoroTime s > 0)"

definition timerEffect :: "FocusState \<Rightarrow> FocusState" where
  "timerEffect s =
     (if isRunning s \<and> pomodoroTime s > 0 then s
      else if pomodoroTime s = 0 then
        (if isBreak s
         then s\<lparr>isRunning := False, pomodoroTime := 25 * 60, isBreak := False\<rparr>
         else s\<lparr>isRunning := False, completedPomodoros := completedPomodoros s + 1,
                pomodoroTime := 5 * 60, isBreak := True\<rparr>)
      else s)"

text \<open>
  One tick: the interval callback fires, which it can only do while the interval is armed,
  and decrements \<^verbatim>\<open>pomodoroTime\<close>; the state change re-runs the effect (the cleanup
  of the previous run has cleared the old interval).
\<close>

definition tick :: "FocusState \<Rightarrow> FocusState" where
  "tick s =
     (if intervalActive s then timerEffect (s\<lparr>pomodoroTime := pomodoroTime s - 1\<rparr>) else s)"

text \<open>\<^verbatim>\<open>toggleTimer\<close>, \<^verbatim>\<open>resetTimer\<close> and \<^verbatim>\<open>skipTimer\<close>, each followed by the effect.\<close>

definition toggleTimer :: "FocusState \<Rightarrow> FocusState" where
  "toggleTimer s = timerEffect (s\<lparr>isRunning := \<not> isRunning s\<rparr>)"

definition resetTimer :: "FocusState \<Rightarrow> FocusState" where
  "resetTimer s =
     timerEffect (s\<lparr>isRunning := False, pomodoroTime := (if isBreak s then 5 * 60 else 25 * 60)\<rparr>)"

definition skipTimer :: "FocusState \<Rightarrow> FocusState" where
  "skipTimer s = timerEffect (s\<lparr>pomodoroTime := 0\<rparr>)"

section \<open>Sorting as the components use it\<close>

text \<open>
  \<^verbatim>\<open>Array.prototype.sort(compareFn)\<close>. ECMAScript specifies the result, not the
  algorithm: for a consistent comparator the elements are put in an order in which no
  element is followed by one that compares less, and the sort is stable (elements that
  compare equal keep their input order). The model is the insertion sort with these
  properties: elements are inserted from the right end of the input, each in front of the
  first element it does not compare greater than.
\<close>

fun insert_js :: "('a \<Rightarrow> 'a \<Rightarrow> int) \<Rightarrow> 'a \<Rightarrow> 'a list \<Rightarrow> 'a list" where
  "insert_js compareFn x [] = [x]"
| "insert_js compareFn x (y # ys) =
     (if compareFn x y \<le> 0 then x # y # ys else y # insert_js compareFn x ys)"

definition sort_js :: "('a \<Rightarrow> 'a \<Rightarrow> int) \<Rightarrow> 'a list \<Rightarrow> 'a list" where
  "sort_js compareFn xs = foldr (insert_js compareFn) xs []"

text \<open>
  \<^verbatim>\<open>a.localeCompare(b)\<close>: negative, zero or positive, as \<^verbatim>\<open>a\<close> comes before, with or
  after \<^verbatim>\<open>b\<close> in the collation of the locale. ECMAScript leaves the collation to the
  implementation, so it is a parameter, called \<open>localeCompare\<close>, of the functions that
  use it.
\<close>

type_synonym collation = "string \<Rightarrow> string \<Rightarrow> int"

text \<open>Truthiness of an optional string: \<^verbatim>\<open>undefined\<close> and \<^verbatim>\<open>''\<close> are falsy.\<close>

definition truthy :: "string option \<Rightarrow> bool" where
  "truthy s = (case s of None \<Rightarrow> False | Some v \<Rightarrow> v \<noteq> [])"

section \<open>List view (TaskListView.tsx)\<close>

text \<open>
  A string is a list of characters with the codes 0 to 255, read as the code units
  U+0000 to U+00FF. Strings compare by code units (\<^verbatim>\<open><=\<close>, \<^verbatim>\<open>>=\<close>), which is the
  lexicographic order of the lists. On these strings \<^verbatim>\<open>toLowerCase\<close> maps the letters
  \<^verbatim>\<open>A\<close> to \<^verbatim>\<open>Z\<close> and the letters U+00C0 to U+00DE other than the sign U+00D7 to the
  letter 32 places up, and \<^verbatim>\<open>trim\<close> strips tab, line feed, vertical tab, form feed,
  carriage return, space and the no-break space U+00A0 from both ends.
\<close>

definition upperCase :: string where
  "upperCase = ''ABCDEFGHIJKLMNOPQRSTUVWXYZ'' @
     [CHR 0xC0, CHR 0xC1, CHR 0xC2, CHR 0xC3, CHR 0xC4, CHR 0xC5, CHR 0xC6, CHR 0xC7,
      CHR 0xC8, CHR 0xC9, CHR 0xCA, CHR 0xCB, CHR 0xCC, CHR 0xCD, CHR 0xCE, CHR 0xCF,
      CHR 0xD0, CHR 0xD1, CHR 0xD2, CHR 0xD3, CHR 0xD4, CHR 0xD5, CHR 0xD6,
      CHR 0xD8, CHR 0xD9, CHR 0xDA, CHR 0xDB, CHR 0xDC, CHR 0xDD, CHR 0xDE]"

definition lowerCase :: string where
  "lowerCase = ''abcdefghijklmnopqrstuvwxyz'' @
     [CHR 0xE0, CHR 0xE1, CHR 0xE2, CHR 0xE3, CHR 0xE4, CHR 0xE5, CHR 0xE6, CHR 0xE7,
      CHR 0xE8, CHR 0xE9, CHR 0xEA, CHR 0xEB, CHR 0xEC, CHR 0xED, CHR 0xEE, CHR 0xEF,
      CHR 0xF0, CHR 0xF1, CHR 0xF2, CHR 0xF3, CHR 0xF4, CHR 0xF5, CHR 0xF6,
      CHR 0xF8, CHR 0xF9, CHR 0xFA, CHR 0xFB, CHR 0xFC, CHR 0xFD, CHR 0xFE]"

definition toLowerChar :: "char \<Rightarrow> char" where
  "toLowerChar c = (case map_of (zip upperCase lowerCase) c of None \<Rightarrow> c | Some l \<Rightarrow> l)"

definition toLowerCase :: "string \<Rightarrow> string" where
  "toLowerCase s = map toLowerChar s"

definition isWhiteSpace :: "char \<Rightarrow> bool" where
  "isWhiteSpace c =
     (c \<in> set [CHR 0x09, CHR 0x0A, CHR 0x0B, CHR 0x0C, CHR 0x0D, CHR '' '', CHR 0xA0])"

definition trim :: "string \<Rightarrow> string" where
  "trim s = rev (dropWhile isWhiteSpace (rev (dropWhile isWhiteSpace s)))"

fun startsWith :: "string \<Rightarrow> string \<Rightarrow> bool" where
  "startsWith s [] = True"
| "startsWith [] (q # qs) = False"
| "startsWith (c # cs) (q # qs) = (c = q \<and> startsWith cs qs)"

text \<open>\<^verbatim>\<open>s.includes(q)\<close>: \<open>q\<close> occurs in \<open>s\<close> as a contiguous substring.\<close>

fun includes_js :: "string \<Rightarrow> string \<Rightarrow> bool" where
  "includes_js [] q = (q = [])"
| "includes_js (c # cs) q = (startsWith (c # cs) q \<or> includes_js cs q)"

text \<open>
  \<^verbatim>\<open>
  let filteredTasks = [...tasks];
  if (startDate) { filteredTasks = filteredTasks.filter(t => t.date >= startDate); }
  if (endDate) { filteredTasks = filteredTasks.filter(t => t.date <= endDate); }
  if (searchQuery.trim()) {
    const query = searchQuery.toLowerCase();
    filteredTasks = filteredTasks.filter(
      t => t.title.toLowerCase().includes(query) || t.description.toLowerCase().includes(query));
  }
  \<close>
\<close>

definition filterTasks :: "string \<Rightarrow> string \<Rightarrow> string \<Rightarrow> Task list \<Rightarrow> Task list" where
  "filterTasks startDate endDate searchQuery tasks =
     (let f1 = (if startDate \<noteq> [] then filter (\<lambda>t. date t \<ge> startDate) tasks else tasks);
          f2 = (if endDate \<noteq> [] then filter (\<lambda>t. date t \<le> endDate) f1 else f1)
      in if trim searchQuery \<noteq> []
         then (let query = toLowerCase searchQuery
               in filter (\<lambda>t. includes_js (toLowerCase (title t)) query
                            \<or> includes_js (toLowerCase (description t)) query) f2)
         else f2)"

text \<open>
  \<^verbatim>\<open>
  filteredTasks.sort((a, b) => {
    const dateCompare = a.date.localeCompare(b.date);
    if (dateCompare !== 0) return dateCompare;
    if (a.time && b.time) return a.time.localeCompare(b.time);
    if (a.time) return -1;
    if (b.time) return 1;
    return 0;
  });
  \<close>
\<close>

definition compareTasks :: "collation \<Rightarrow> Task \<Rightarrow> Task \<Rightarrow> int" where
  "compareTasks localeCompare a b =
     (let dateCompare = localeCompare (date a) (date b)
      in if dateCompare \<noteq> 0 then dateCompare
         else if truthy (time a) \<and> truthy (time b) then localeCompare (the (time a)) (the (time b))
         else if truthy (time a) then -1
         else if truthy (time b) then 1
         else 0)"

definition filteredTasks ::
  "collation \<Rightarrow> string \<Rightarrow> string \<Rightarrow> string \<Rightarrow> Task list \<Rightarrow> Task list" where
  "filteredTasks localeCompare startDate endDate searchQuery tasks =
     sort_js (compareTasks localeCompare) (filterTasks startDate endDate searchQuery tasks)"

section \<open>Focus mode: the queue of today's tasks (FocusMode.tsx)\<close>

text \<open>\<^verbatim>\<open>const priorityOrder = { urgent: 0, high: 1, medium: 2, low: 3 };\<close>\<close>

fun priorityOrder :: "Priority \<Rightarrow> int" where
  "priorityOrder Urgent = 0"
| "priorityOrder High = 1"
| "priorityOrder Medium = 2"
| "priorityOrder Low = 3"

text \<open>
  \<^verbatim>\<open>
  const todayTasks = tasks
    .filter(t => t.date === today && !t.completed)
    .sort((a, b) => {
      const priorityOrder = { urgent: 0, high: 1, medium: 2, low: 3 };
      return priorityOrder[a.priority] - priorityOrder[b.priority];
    });
  \<close>
  The key \<^verbatim>\<open>today\<close> is an argument of \<open>todayTasks\<close>; \<open>focusQueue\<close> below computes it.
\<close>

definition todayTasks :: "string \<Rightarrow> Task list \<Rightarrow> Task list" where
  "todayTasks today tasks =
     sort_js (\<lambda>a b. priorityOrder (priority a) - priorityOrder (priority b))
       (filter (\<lambda>t. date t = today \<and> \<not> completed t) tasks)"

text \<open>
  The card under the heading Next Up: \<^verbatim>\<open>todayTasks.length > 0 && ... todayTasks[0]\<close>;
  the cards under Upcoming: \<^verbatim>\<open>todayTasks.slice(1, 4)\<close>.
\<close>

definition nextUp :: "Task list \<Rightarrow> Task option" where
  "nextUp q = (if length q > 0 then Some (q ! 0) else None)"

definition upcoming :: "Task list \<Rightarrow> Task list" where
  "upcoming q = take 3 (drop 1 q)"

section \<open>The Date object of the platform\<close>

text \<open>
  The components compute with \<^verbatim>\<open>Date\<close>. What follows is the part of ECMAScript's
  Date they use, written after the abstract operations of the language specification
  (section "Date Objects"), under their names there. A time value is either a number of
  milliseconds since 1970-01-01T00:00:00Z, at most \<open>8.64 \<times> 10\<^sup>1\<^sup>5\<close> in absolute value, or
  \<^verbatim>\<open>NaN\<close>; a Date holding \<^verbatim>\<open>NaN\<close> is an invalid Date. A Date is modelled by its time
  value, \<open>None\<close> standing for \<^verbatim>\<open>NaN\<close>.

  The local time zone is a parameter \<open>tza\<close>: the function \<^verbatim>\<open>LocalTZA(t, isUTC)\<close> of
  the language specification, the offset of local time from UTC in milliseconds at the
  UTC time value \<open>t\<close> (\<open>isUTC\<close> true) or at the local time value \<open>t\<close> (\<open>isUTC\<close>
  false). In a zone with daylight saving the offset depends on \<open>t\<close>; \<open>fixedZone\<close> is
  a zone with one offset all year.
\<close>

type_synonym zone = "int \<Rightarrow> bool \<Rightarrow> int"

definition fixedZone :: "int \<Rightarrow> zone" where
  "fixedZone offset t isUTC = offset"

definition msPerDay :: int where
  "msPerDay = 86400000"

definition maxTime :: int where
  "maxTime = 8640000000000000"

definition Day :: "int \<Rightarrow> int" where
  "Day t = t div msPerDay"

definition TimeWithinDay :: "int \<Rightarrow> int" where
  "TimeWithinDay t = t mod msPerDay"

definition DaysInYear :: "int \<Rightarrow> int" where
  "DaysInYear y =
     (if y mod 4 \<noteq> 0 then 365
      else if y mod 100 \<noteq> 0 then 366
      else if y mod 400 \<noteq> 0 then 365
      else 366)"

definition DayFromYear :: "int \<Rightarrow> int" where
  "DayFromYear y =
     365 * (y - 1970) + (y - 1969) div 4 - (y - 1901) div 100 + (y - 1601) div 400"

definition TimeFromYear :: "int \<Rightarrow> int" where
  "TimeFromYear y = msPerDay * DayFromYear y"

text \<open>
  \<^verbatim>\<open>YearFromTime(t)\<close> is the largest \<open>y\<close> with \<open>TimeFromYear y \<le> t\<close>. It is computed
  from an estimate by the mean length of the Gregorian year (146097 days in 400 years),
  which is off by at most one; \<open>YearFromTime_largest\<close> below proves that the result is
  the year of the specification.
\<close>

definition YearFromTime :: "int \<Rightarrow> int" where
  "YearFromTime t =
     (let d = Day t; e = 1970 + (400 * d) div 146097
      in if d < DayFromYear e then e - 1
         else if DayFromYear (e + 1) \<le> d then e + 1
         else e)"

definition InLeapYear :: "int \<Rightarrow> int" where
  "InLeapYear t = (if DaysInYear (YearFromTime t) = 366 then 1 else 0)"

definition DayWithinYear :: "int \<Rightarrow> int" where
  "DayWithinYear t = Day t - DayFromYear (YearFromTime t)"

definition MonthFromTime :: "int \<Rightarrow> int" where
  "MonthFromTime t =
     (let d = DayWithinYear t; l = InLeapYear t
      in if d < 31 then 0
         else if d < 59 + l then 1
         else if d < 90 + l then 2
         else if d < 120 + l then 3
         else if d < 151 + l then 4
         else if d < 181 + l then 5
         else if d < 212 + l then 6
         else if d < 243 + l then 7
         else if d < 273 + l then 8
         else if d < 304 + l then 9
         else if d < 334 + l then 10
         else 11)"

definition DateFromTime :: "int \<Rightarrow> int" where
  "DateFromTime t =
     (let d = DayWithinYear t; l = InLeapYear t; m = MonthFromTime t
      in if m = 0 then d + 1
         else if m = 1 then d - 30
         else if m = 2 then d - 58 - l
         else if m = 3 then d - 89 - l
         else if m = 4 then d - 119 - l
         else if m = 5 then d - 150 - l
         else if m = 6 then d - 180 - l
         else if m = 7 then d - 211 - l
         else if m = 8 then d - 242 - l
         else if m = 9 then d - 272 - l
         else if m = 10 then d - 303 - l
         else d - 333 - l)"

text \<open>\<^verbatim>\<open>WeekDay\<close>: 0 is Sunday; 1970-01-01 was a Thursday.\<close>

definition WeekDay :: "int \<Rightarrow> int" where
  "WeekDay t = (Day t + 4) mod 7"

definition HourFromTime :: "int \<Rightarrow> int" where
  "HourFromTime t = (t div 3600000) mod 24"

definition MinFromTime :: "int \<Rightarrow> int" where
  "MinFromTime t = (t div 60000) mod 60"

definition SecFromTime :: "int \<Rightarrow> int" where
  "SecFromTime t = (t div 1000) mod 60"

definition msFromTime :: "int \<Rightarrow> int" where
  "msFromTime t = t mod 1000"

definition LocalTime :: "zone \<Rightarrow> int \<Rightarrow> int" where
  "LocalTime tza t = t + tza t True"

definition UTC :: "zone \<Rightarrow> int \<Rightarrow> int" where
  "UTC tza t = t - tza t False"

text \<open>
  \<^verbatim>\<open>MakeDay(year, month, date)\<close>: the day number of the first of the month \<open>month mod 12\<close>
  of the year \<open>year + month div 12\<close>, plus \<open>date - 1\<close>. \<open>monthStart\<close> is the day within
  the year on which a month begins (\<open>l\<close> is 1 in a leap year).
\<close>

definition monthStart :: "int \<Rightarrow> int \<Rightarrow> int" where
  "monthStart mn l =
     [0, 31, 59 + l, 90 + l, 120 + l, 151 + l, 181 + l, 212 + l, 243 + l, 273 + l, 304 + l,
      334 + l] ! nat mn"

definition MakeDay :: "int \<Rightarrow> int \<Rightarrow> int \<Rightarrow> int" where
  "MakeDay year m dt =
     (let ym = year + m div 12; mn = m mod 12;
          l = (if DaysInYear ym = 366 then 1 else 0)
      in DayFromYear ym + monthStart mn l + dt - 1)"

definition MakeDate :: "int \<Rightarrow> int \<Rightarrow> int" where
  "MakeDate day tm = day * msPerDay + tm"

definition TimeClip :: "int \<Rightarrow> int option" where
  "TimeClip t = (if \<bar>t\<bar> > maxTime then None else Some t)"

text \<open>
  \<^verbatim>\<open>new Date(year, month, date)\<close>: local midnight of that day. A year from 0 to 99
  stands for 1900 + year. A \<^verbatim>\<open>NaN\<close> argument gives an invalid Date.
\<close>

definition newDate :: "zone \<Rightarrow> int option \<Rightarrow> int option \<Rightarrow> int option \<Rightarrow> int option" where
  "newDate tza year mon dt =
     (case year of None \<Rightarrow> None | Some y \<Rightarrow>
      case mon of None \<Rightarrow> None | Some m \<Rightarrow>
      case dt of None \<Rightarrow> None | Some d \<Rightarrow>
        (let yr = (if 0 \<le> y \<and> y \<le> 99 then 1900 + y else y)
         in TimeClip (UTC tza (MakeDate (MakeDay yr m d) 0))))"

text \<open>The getters read the local time; on an invalid Date they return \<^verbatim>\<open>NaN\<close>.\<close>

definition getFullYear :: "zone \<Rightarrow> int option \<Rightarrow> int option" where
  "getFullYear tza d = map_option (\<lambda>t. YearFromTime (LocalTime tza t)) d"

definition getMonth :: "zone \<Rightarrow> int option \<Rightarrow> int option" where
  "getMonth tza d = map_option (\<lambda>t. MonthFromTime (LocalTime tza t)) d"

definition getDate :: "zone \<Rightarrow> int option \<Rightarrow> int option" where
  "getDate tza d = map_option (\<lambda>t. DateFromTime (LocalTime tza t)) d"

definition getDay :: "zone \<Rightarrow> int option \<Rightarrow> int option" where
  "getDay tza d = map_option (\<lambda>t. WeekDay (LocalTime tza t)) d"

text \<open>
  \<^verbatim>\<open>d.setDate(dt)\<close>: the day of the month of the local time is replaced, the local time
  of day kept. The result is the new time value of \<open>d\<close>.
\<close>

definition setDate :: "zone \<Rightarrow> int option \<Rightarrow> int option \<Rightarrow> int option" where
  "setDate tza d dt =
     (case d of None \<Rightarrow> None | Some t \<Rightarrow>
      case dt of None \<Rightarrow> None | Some n \<Rightarrow>
        (let tl = LocalTime tza t;
             nd = MakeDate (MakeDay (YearFromTime tl) (MonthFromTime tl) n) (TimeWithinDay tl)
         in TimeClip (UTC tza nd)))"

text \<open>Decimal digits, and padding with zeros on the left to a minimum length.\<close>

definition digit :: "nat \<Rightarrow> char" where
  "digit n = ''0123456789'' ! n"

function decimal :: "nat \<Rightarrow> string" where
  "decimal n = (if n < 10 then [digit n] else decimal (n div 10) @ [digit (n mod 10)])"
  by pat_completeness auto
termination
  by (relation "measure (\<lambda>n. n)") auto

declare decimal.simps [simp del]

definition zeroPad :: "int \<Rightarrow> nat \<Rightarrow> string" where
  "zeroPad n len = replicate (len - length (decimal (nat n))) (CHR ''0'') @ decimal (nat n)"

datatype jsError = RangeError

text \<open>
  \<^verbatim>\<open>toISOString()\<close>: the UTC fields of the time value as
  \<^verbatim>\<open>YYYY-MM-DDTHH:mm:ss.sssZ\<close>; years outside 0 to 9999 are written with a sign and six
  digits. On an invalid Date it throws a \<^verbatim>\<open>RangeError\<close>.
\<close>

definition isoYear :: "int \<Rightarrow> string" where
  "isoYear y =
     (if 0 \<le> y \<and> y \<le> 9999 then zeroPad y 4
      else (if y < 0 then CHR ''-'' else CHR ''+'') # zeroPad \<bar>y\<bar> 6)"

definition isoDate :: "int \<Rightarrow> string" where
  "isoDate t =
     isoYear (YearFromTime t) @ ''-'' @ zeroPad (MonthFromTime t + 1) 2 @ ''-''
       @ zeroPad (DateFromTime t) 2"

definition isoTime :: "int \<Rightarrow> string" where
  "isoTime t =
     zeroPad (HourFromTime t) 2 @ '':'' @ zeroPad (MinFromTime t) 2 @ '':''
       @ zeroPad (SecFromTime t) 2 @ ''.'' @ zeroPad (msFromTime t) 3"

definition toISOString :: "int option \<Rightarrow> jsError + string" where
  "toISOString d =
     (case d of None \<Rightarrow> Inl RangeError
      | Some t \<Rightarrow> Inr (isoDate t @ ''T'' @ isoTime t @ ''Z''))"

text \<open>
  The date key of the components, \<^verbatim>\<open>d.toISOString().split('T')[0]\<close>: the part of the
  ISO string before its first \<^verbatim>\<open>T\<close>. The components call the result \<^verbatim>\<open>dateStr\<close>
  or \<^verbatim>\<open>today\<close>.
\<close>

definition dateStr :: "int option \<Rightarrow> jsError + string" where
  "dateStr d =
     (case toISOString d of Inl e \<Rightarrow> Inl e
      | Inr s \<Rightarrow> Inr (takeWhile (\<lambda>c. c \<noteq> CHR ''T'') s))"

section \<open>The Date object: the calendar arithmetic is right\<close>

lemma leap_mods:
  fixes y :: int
  shows "(y - 1968) mod 4 = y mod 4" and "(y - 1900) mod 100 = y mod 100"
    and "(y - 1600) mod 400 = y mod 400"
    and "y mod 100 = 0 \<Longrightarrow> y mod 4 = 0" and "y mod 400 = 0 \<Longrightarrow> y mod 100 = 0"
proof -
  show "(y - 1968) mod 4 = y mod 4" using mod_mult_self2 [of y 4 "-492"] by simp
  show "(y - 1900) mod 100 = y mod 100" using mod_mult_self2 [of y 100 "-19"] by simp
  show "(y - 1600) mod 400 = y mod 400" using mod_mult_self2 [of y 400 "-4"] by simp
  show "y mod 100 = 0 \<Longrightarrow> y mod 4 = 0" using mod_mod_cancel [of 4 100 y] by simp
  show "y mod 400 = 0 \<Longrightarrow> y mod 100 = 0" using mod_mod_cancel [of 100 400 y] by simp
qed

lemma div_succ_int:
  fixes n k :: int
  assumes "0 < k"
  shows "(n + 1) div k = n div k + (if (n + 1) mod k = 0 then 1 else 0)"
proof -
  have e1: "n = k * (n div k) + n mod k" by simp
  have b1: "0 \<le> n mod k" "n mod k < k" using assms by simp_all
  show ?thesis
  proof (cases "n mod k = k - 1")
    case True
    then have "n + 1 = k * (n div k + 1)" using e1 by (metis add.commute add_diff_cancel_left' diff_add_cancel distrib_left mult.right_neutral add.assoc)
    then have "(n + 1) div k = n div k + 1 \<and> (n + 1) mod k = 0" using assms
      by (metis less_irrefl mod_mult_self1_is_0 nonzero_mult_div_cancel_left)
    then show ?thesis by simp
  next
    case False
    with b1 have lt: "n mod k + 1 < k" by simp
    have "n + 1 = k * (n div k) + (n mod k + 1)" using e1 by simp
    then have "(n + 1) div k = n div k \<and> (n + 1) mod k = n mod k + 1"
      using lt b1 assms
      by (metis add.commute add_nonneg_nonneg div_mult_self2 mod_mult_self2 less_irrefl
          mod_pos_pos_trivial div_pos_pos_trivial zero_le_one add_0)
    then show ?thesis using b1 by simp
  qed
qed

lemma DayFromYear_step: "DayFromYear (y + 1) = DayFromYear y + DaysInYear y"
proof -
  have a: "(y + 1 - 1969) div 4 = (y - 1969) div 4 + (if y mod 4 = 0 then 1 else 0)"
    using div_succ_int [of 4 "y - 1969"] leap_mods(1) [of y] by (simp add: algebra_simps)
  have b: "(y + 1 - 1901) div 100 = (y - 1901) div 100 + (if y mod 100 = 0 then 1 else 0)"
    using div_succ_int [of 100 "y - 1901"] leap_mods(2) [of y] by (simp add: algebra_simps)
  have c: "(y + 1 - 1601) div 400 = (y - 1601) div 400 + (if y mod 400 = 0 then 1 else 0)"
    using div_succ_int [of 400 "y - 1601"] leap_mods(3) [of y] by (simp add: algebra_simps)
  show ?thesis
    unfolding DayFromYear_def DaysInYear_def a b c
    using leap_mods(4,5) [of y] by auto
qed

lemma DayFromYear_bounds:
  "146097 * (y - 1970) - 506 \<le> 400 * DayFromYear y
   \<and> 400 * DayFromYear y \<le> 146097 * (y - 1970) + 589"
proof -
  define a where "a = (y - 1969) div 4"
  define b where "b = (y - 1901) div 100"
  define c where "c = (y - 1601) div 400"
  have a': "4 * a \<le> y - 1969" "y - 1969 \<le> 4 * a + 3"
  proof -
    define ra where "ra = (y - 1969) mod 4"
    have "y - 1969 = 4 * a + ra" "0 \<le> ra" "ra < 4" by (simp_all add: a_def ra_def)
    then show "4 * a \<le> y - 1969" "y - 1969 \<le> 4 * a + 3" by simp_all
  qed
  have b': "100 * b \<le> y - 1901" "y - 1901 \<le> 100 * b + 99"
  proof -
    define rb where "rb = (y - 1901) mod 100"
    have "y - 1901 = 100 * b + rb" "0 \<le> rb" "rb < 100" by (simp_all add: b_def rb_def)
    then show "100 * b \<le> y - 1901" "y - 1901 \<le> 100 * b + 99" by simp_all
  qed
  have c': "400 * c \<le> y - 1601" "y - 1601 \<le> 400 * c + 399"
  proof -
    define rc where "rc = (y - 1601) mod 400"
    have "y - 1601 = 400 * c + rc" "0 \<le> rc" "rc < 400" by (simp_all add: c_def rc_def)
    then show "400 * c \<le> y - 1601" "y - 1601 \<le> 400 * c + 399" by simp_all
  qed
  have d: "DayFromYear y = 365 * (y - 1970) + a - b + c"
    by (simp add: DayFromYear_def a_def b_def c_def)
  have "100 * (y - 1972) \<le> 400 * a" using a'(2) by simp
  moreover have "400 * b \<le> 4 * (y - 1901)" using b'(1) by simp
  moreover have "y - 2000 \<le> 400 * c" using c'(2) by simp
  ultimately have "146097 * (y - 1970) - 506 \<le> 400 * (365 * (y - 1970) + a - b + c)"
    by simp
  moreover
  have "400 * a \<le> 100 * (y - 1969)" using a'(1) by simp
  moreover have "4 * (y - 2000) \<le> 400 * b" using b'(2) by simp
  moreover have "400 * c \<le> y - 1601" using c'(1) by simp
  ultimately have "146097 * (y - 1970) - 506 \<le> 400 * (365 * (y - 1970) + a - b + c)
      \<and> 400 * (365 * (y - 1970) + a - b + c) \<le> 146097 * (y - 1970) + 589"
    by simp
  then show ?thesis unfolding d .
qed


lemma YearFromTime_bounds:
  "DayFromYear (YearFromTime t) \<le> Day t \<and> Day t < DayFromYear (YearFromTime t + 1)"
proof -
  define d where "d = Day t"
  define e where "e = 1970 + (400 * d) div 146097"
  define r where "r = (400 * d) mod 146097"
  have q: "400 * d = 146097 * (e - 1970) + r" by (simp add: e_def r_def)
  have r: "0 \<le> r" "r < 146097" by (simp_all add: r_def)
  have "400 * DayFromYear (e - 1) \<le> 400 * d"
    using DayFromYear_bounds [of "e - 1"] q r(1) by (simp add: algebra_simps)
  then have lo: "DayFromYear (e - 1) \<le> d" by simp
  have "400 * d < 400 * DayFromYear (e + 2)"
    using DayFromYear_bounds [of "e + 2"] q r(2) by (simp add: algebra_simps)
  then have hi: "d < DayFromYear (e + 2)" by simp
  have y: "YearFromTime t = (if d < DayFromYear e then e - 1
         else if DayFromYear (e + 1) \<le> d then e + 1 else e)"
    by (simp add: YearFromTime_def Let_def d_def e_def)
  show ?thesis
    unfolding y d_def [symmetric] using lo hi by (auto simp: algebra_simps)
qed

lemma DayFromYear_mono: "y \<le> y' \<Longrightarrow> DayFromYear y \<le> DayFromYear y'"
proof (induction y' rule: int_ge_induct)
  case base
  show ?case by simp
next
  case (step i)
  have "0 \<le> DaysInYear i" by (simp add: DaysInYear_def)
  with step DayFromYear_step [of i] show ?case by simp
qed


text \<open>The year of the specification: the largest \<open>y\<close> with \<open>TimeFromYear y \<le> t\<close>.\<close>

lemma YearFromTime_largest:
  "TimeFromYear (YearFromTime t) \<le> t \<and> (\<forall>y. TimeFromYear y \<le> t \<longrightarrow> y \<le> YearFromTime t)"
proof -
  have le_iff: "(msPerDay * k \<le> t) = (k \<le> Day t)" for k
  proof -
    have q: "t = 86400000 * (t div 86400000) + t mod 86400000" by simp
    have r: "0 \<le> t mod 86400000" "t mod 86400000 < 86400000" by simp_all
    from q r show ?thesis unfolding msPerDay_def Day_def by linarith
  qed
  have 1: "TimeFromYear (YearFromTime t) \<le> t"
    unfolding TimeFromYear_def le_iff using YearFromTime_bounds [of t] by simp
  have 2: "y \<le> YearFromTime t" if "TimeFromYear y \<le> t" for y
  proof (rule ccontr)
    assume "\<not> y \<le> YearFromTime t"
    then have "YearFromTime t + 1 \<le> y" by simp
    from DayFromYear_mono [OF this] YearFromTime_bounds [of t]
    have "Day t < DayFromYear y" by simp
    with that show False unfolding TimeFromYear_def le_iff by simp
  qed
  from 1 2 show ?thesis by blast
qed

lemma DaysInYear_leap: "DaysInYear (YearFromTime t) = 365 + InLeapYear t"
  by (simp add: InLeapYear_def DaysInYear_def)

lemma InLeapYear_range: "InLeapYear t = 0 \<or> InLeapYear t = 1"
  by (simp add: InLeapYear_def)

lemma DayWithinYear_range: "0 \<le> DayWithinYear t \<and> DayWithinYear t < 365 + InLeapYear t"
  using YearFromTime_bounds [of t] DayFromYear_step [of "YearFromTime t"]
  by (simp add: DayWithinYear_def DaysInYear_leap)

lemma MonthFromTime_range: "0 \<le> MonthFromTime t \<and> MonthFromTime t \<le> 11"
  by (simp add: MonthFromTime_def Let_def)

lemma monthStart_simps:
  "monthStart 0 l = 0" "monthStart 1 l = 31" "monthStart 2 l = 59 + l"
  "monthStart 3 l = 90 + l" "monthStart 4 l = 120 + l" "monthStart 5 l = 151 + l"
  "monthStart 6 l = 181 + l" "monthStart 7 l = 212 + l" "monthStart 8 l = 243 + l"
  "monthStart 9 l = 273 + l" "monthStart 10 l = 304 + l" "monthStart 11 l = 334 + l"
  by (simp_all add: monthStart_def)

text \<open>The day of the month counts from the start of the month.\<close>

lemma MonthFromTime_cases: "MonthFromTime t \<in> {0, 1, 2, 3, 4, 5, 6, 7, 8, 9, 10, 11}"
  by (simp add: MonthFromTime_def Let_def)

lemma DateFromTime_monthStart:
  "DateFromTime t = DayWithinYear t - monthStart (MonthFromTime t) (InLeapYear t) + 1"
  using MonthFromTime_cases [of t]
  by (auto simp: DateFromTime_def Let_def monthStart_simps)

lemma DateFromTime_range: "1 \<le> DateFromTime t \<and> DateFromTime t \<le> 31"
proof -
  from InLeapYear_range [of t] DayWithinYear_range [of t] show ?thesis
    unfolding DateFromTime_def MonthFromTime_def Let_def
    by (auto split: if_splits)
qed

text \<open>The fields of a time value give back its day number.\<close>

lemma MakeDay_fields: "MakeDay (YearFromTime t) (MonthFromTime t) (DateFromTime t + k) = Day t + k"
proof -
  from MonthFromTime_range [of t]
  have m: "MonthFromTime t div 12 = 0" "MonthFromTime t mod 12 = MonthFromTime t" by simp_all
  have l: "(if DaysInYear (YearFromTime t) = 366 then 1 else 0) = InLeapYear t"
    by (simp add: InLeapYear_def)
  show ?thesis
    unfolding MakeDay_def Let_def m
    by (simp add: l DateFromTime_monthStart DayWithinYear_def)
qed

lemma MakeDate_Day: "MakeDate (Day t + k) (TimeWithinDay t) = t + k * msPerDay"
  by (simp add: MakeDate_def Day_def TimeWithinDay_def algebra_simps)

text \<open>
  \<^verbatim>\<open>d.setDate(d.getDate() + k)\<close> moves the local time of a valid Date by \<open>k\<close> whole
  days. In a zone with a fixed offset the Date itself moves by \<open>k\<close> times 24 hours; where
  the offset changes in between, it moves by more or less than that.
\<close>

lemma setDate_getDate:
  "setDate tza (Some t) (map_option (\<lambda>n. n + k) (getDate tza (Some t)))
     = TimeClip (UTC tza (LocalTime tza t + k * msPerDay))"
  by (simp add: setDate_def getDate_def Let_def MakeDay_fields MakeDate_Day)

lemma setDate_getDate_fixed:
  "setDate (fixedZone offset) (Some t) (map_option (\<lambda>n. n + k) (getDate (fixedZone offset) (Some t)))
     = TimeClip (t + k * msPerDay)"
  by (simp add: setDate_getDate LocalTime_def UTC_def fixedZone_def)

section \<open>The Date object: date keys of different days differ\<close>

definition digitVal :: "char \<Rightarrow> nat" where
  "digitVal c = length (takeWhile (\<lambda>d. d \<noteq> c) ''0123456789'')"

definition fromDigits :: "string \<Rightarrow> nat" where
  "fromDigits s = foldl (\<lambda>a c. 10 * a + digitVal c) 0 s"

lemma below_ten: "v < 10 \<Longrightarrow> v \<in> set [0, 1, 2, 3, 4, 5, 6, 7, 8, 9::nat]"
  by (simp add: eval_nat_numeral less_Suc_eq)

lemma digitVal_digit: "v < 10 \<Longrightarrow> digitVal (digit v) = v"
  using below_ten [of v] by (auto simp: digit_def digitVal_def)

lemma fromDigits_snoc: "fromDigits (s @ [c]) = 10 * fromDigits s + digitVal c"
  by (simp add: fromDigits_def)

lemma fromDigits_decimal: "fromDigits (decimal n) = n"
proof (induction n rule: decimal.induct)
  case (1 n)
  show ?case
  proof (cases "n < 10")
    case True
    then show ?thesis
      by (subst decimal.simps) (simp add: fromDigits_def digitVal_digit)
  next
    case False
    with 1 have "fromDigits (decimal (n div 10)) = n div 10" by simp
    with False show ?thesis
      by (subst decimal.simps) (simp add: fromDigits_snoc digitVal_digit)
  qed
qed

lemma fromDigits_zeros: "fromDigits (replicate k (CHR ''0'') @ s) = fromDigits s"
proof -
  have "foldl (\<lambda>a c. 10 * a + digitVal c) 0 (replicate k (CHR ''0'')) = 0"
    by (induction k) (simp_all add: digitVal_def)
  then show ?thesis by (simp add: fromDigits_def)
qed

lemma fromDigits_zeroPad: "fromDigits (zeroPad n len) = nat n"
  by (simp add: zeroPad_def fromDigits_zeros fromDigits_decimal)

lemma zeroPad_inj: "zeroPad a len = zeroPad b len \<Longrightarrow> 0 \<le> a \<Longrightarrow> 0 \<le> b \<Longrightarrow> a = b"
  using fromDigits_zeroPad [of a len] fromDigits_zeroPad [of b len] by simp

lemma length_decimal: "n < 10 ^ k \<Longrightarrow> 0 < k \<Longrightarrow> length (decimal n) \<le> k"
proof (induction n arbitrary: k rule: decimal.induct)
  case (1 n)
  show ?case
  proof (cases "n < 10")
    case True
    with 1(3) show ?thesis by (subst decimal.simps) simp
  next
    case False
    from 1(3) obtain j where k: "k = Suc j" by (cases k) auto
    from False 1(2) k have j: "0 < j" by (cases j) auto
    from 1(2) k have "n div 10 < 10 ^ j" by (simp add: less_mult_imp_div_less mult.commute)
    from 1(1) [OF False this j] have "length (decimal (n div 10)) \<le> j" .
    with False k show ?thesis by (subst decimal.simps) simp
  qed
qed

lemma length_decimal_pos: "0 < length (decimal n)"
  by (subst decimal.simps) simp

lemma length_zeroPad: "length (zeroPad n len) = max len (length (decimal (nat n)))"
  by (simp add: zeroPad_def)

lemma length_zeroPad_exact: "0 \<le> n \<Longrightarrow> n < 10 ^ len \<Longrightarrow> 0 < len \<Longrightarrow> length (zeroPad n len) = len"
proof -
  assume "0 \<le> n" "n < 10 ^ len" "0 < len"
  then have "nat n < 10 ^ len" by (simp add: nat_less_iff)
  from length_decimal [OF this \<open>0 < len\<close>] show ?thesis by (simp add: length_zeroPad)
qed

lemma isoYear_inj: "isoYear y = isoYear y' \<Longrightarrow> y = y'"
proof -
  assume e: "isoYear y = isoYear y'"
  have in4: "length (isoYear z) = 4" if "0 \<le> z \<and> z \<le> 9999" for z
    using that length_zeroPad_exact [of z 4] by (simp add: isoYear_def)
  have out7: "7 \<le> length (isoYear z)" if "\<not> (0 \<le> z \<and> z \<le> 9999)" for z
    using that by (auto simp: isoYear_def length_zeroPad)
  show ?thesis
  proof (cases "0 \<le> y \<and> y \<le> 9999")
    case True
    show ?thesis
    proof (cases "0 \<le> y' \<and> y' \<le> 9999")
      case y': True
      with True e show ?thesis by (auto simp: isoYear_def dest: zeroPad_inj)
    next
      case False
      from in4 [OF True] out7 [OF False] e show ?thesis by simp
    qed
  next
    case False
    show ?thesis
    proof (cases "0 \<le> y' \<and> y' \<le> 9999")
      case True
      from in4 [OF True] out7 [OF False] e show ?thesis by simp
    next
      case y': False
      from False y' e have s: "(y < 0) = (y' < 0)" and z: "zeroPad \<bar>y\<bar> 6 = zeroPad \<bar>y'\<bar> 6"
        by (auto simp: isoYear_def split: if_splits)
      from zeroPad_inj [OF z] have "\<bar>y\<bar> = \<bar>y'\<bar>" by simp
      with s show ?thesis by linarith
    qed
  qed
qed

lemma length_month_date:
  "length (zeroPad (MonthFromTime t + 1) 2) = 2" "length (zeroPad (DateFromTime t) 2) = 2"
  using MonthFromTime_range [of t] DateFromTime_range [of t]
  by (simp_all add: length_zeroPad_exact)

lemma isoDate_fields:
  assumes "isoDate t = isoDate t'"
  shows "YearFromTime t = YearFromTime t' \<and> MonthFromTime t = MonthFromTime t'
       \<and> DateFromTime t = DateFromTime t'"
proof -
  let ?Y = "\<lambda>t. isoYear (YearFromTime t)"
  let ?M = "\<lambda>t. zeroPad (MonthFromTime t + 1) 2"
  let ?D = "\<lambda>t. zeroPad (DateFromTime t) 2"
  from assms have e: "?Y t @ (''-'' @ ?M t @ ''-'' @ ?D t) = ?Y t' @ (''-'' @ ?M t' @ ''-'' @ ?D t')"
    by (simp add: isoDate_def)
  have "length (''-'' @ ?M t @ ''-'' @ ?D t) = length (''-'' @ ?M t' @ ''-'' @ ?D t')"
    by (simp add: length_month_date)
  with e have y: "?Y t = ?Y t'" and r: "?M t @ ''-'' @ ?D t = ?M t' @ ''-'' @ ?D t'"
    by (simp_all add: append_eq_append_conv)
  from r have m: "?M t = ?M t'" and d: "?D t = ?D t'"
    by (simp_all add: append_eq_append_conv length_month_date)
  from y have "YearFromTime t = YearFromTime t'" by (rule isoYear_inj)
  moreover from zeroPad_inj [OF m] MonthFromTime_range [of t] MonthFromTime_range [of t']
  have "MonthFromTime t = MonthFromTime t'" by simp
  moreover from zeroPad_inj [OF d] DateFromTime_range [of t] DateFromTime_range [of t']
  have "DateFromTime t = DateFromTime t'" by simp
  ultimately show ?thesis by simp
qed

lemma isoDate_inj: "isoDate t = isoDate t' \<Longrightarrow> Day t = Day t'"
  using isoDate_fields [of t t'] MakeDay_fields [of t 0] MakeDay_fields [of t' 0] by simp

text \<open>The date part of the ISO string has no \<^verbatim>\<open>T\<close>, so the split returns all of it.\<close>

lemma set_decimal: "set (decimal n) \<subseteq> set ''0123456789''"
proof (induction n rule: decimal.induct)
  case (1 n)
  have d: "digit k \<in> set ''0123456789''" if "k < 10" for k
  proof -
    from below_ten [OF that] show ?thesis by (auto simp: digit_def)
  qed
  show ?case
  proof (cases "n < 10")
    case True
    with d [of n] show ?thesis by (subst decimal.simps) simp
  next
    case False
    with 1 d [of "n mod 10"] show ?thesis by (subst decimal.simps) simp
  qed
qed

lemma set_zeroPad: "set (zeroPad n len) \<subseteq> set ''0123456789''"
  using set_decimal [of "nat n"] by (auto simp: zeroPad_def)

lemma T_notin_zeroPad: "CHR ''T'' \<notin> set (zeroPad n len)"
proof
  assume "CHR ''T'' \<in> set (zeroPad n len)"
  with set_zeroPad [of n len] have "CHR ''T'' \<in> set ''0123456789''" by (rule subsetD)
  then show False by simp
qed

lemma T_notin_isoDate: "CHR ''T'' \<notin> set (isoDate t)"
  by (simp add: isoDate_def isoYear_def T_notin_zeroPad)

lemma dateStr_Some: "dateStr (Some t) = Inr (isoDate t)"
proof -
  have "takeWhile (\<lambda>c. c \<noteq> CHR ''T'') (isoDate t @ ''T'' @ isoTime t @ ''Z'') = isoDate t"
    using T_notin_isoDate [of t] by (subst takeWhile_append2) auto
  then show ?thesis by (simp add: dateStr_def toISOString_def)
qed

lemma dateStr_None: "dateStr None = Inl RangeError"
  by (simp add: dateStr_def toISOString_def)

section \<open>Focus mode: the queue at a given instant (FocusMode.tsx)\<close>

text \<open>
  \<^verbatim>\<open>const today = new Date().toISOString().split('T')[0];\<close> followed by the filter and
  the sort of \<open>todayTasks\<close>: the queue that the component shows when the clock reads
  \<open>now\<close>, the time value of \<^verbatim>\<open>new Date()\<close>.
\<close>

definition focusQueue :: "int \<Rightarrow> Task list \<Rightarrow> jsError + Task list" where
  "focusQueue now tasks =
     (case dateStr (Some now) of
        Inl e \<Rightarrow> Inl e
      | Inr today \<Rightarrow> Inr (todayTasks today tasks))"

section \<open>Streak (App.tsx)\<close>

text \<open>
  \<^verbatim>\<open>
  const calculateStreak = () => {
    const today = new Date();
    let currentStreak = 0;
    let checkDate = new Date(today);
    while (true) {
      const dateStr = checkDate.toISOString().split('T')[0];
      const dayTasks = tasks.filter(t => t.date === dateStr && t.completed);
      if (dayTasks.length === 0) break;
      currentStreak++;
      checkDate.setDate(checkDate.getDate() - 1);
    }
    setStreak(currentStreak);
  };
  \<close>
  \<open>streakLoop\<close> is the \<^verbatim>\<open>while\<close> loop, with the loop variables \<^verbatim>\<open>checkDate\<close> and
  \<^verbatim>\<open>currentStreak\<close> as arguments. When the loop ends, the result is \<open>Some\<close> of the
  streak that is set, or of the \<^verbatim>\<open>RangeError\<close> that \<^verbatim>\<open>toISOString\<close> throws once the
  walk has left the range of time values. Nothing in the loop itself makes it end (in a
  zone whose offset jumps by a whole day \<^verbatim>\<open>setDate\<close> need not move the Date at all);
  a run that never ends is \<open>None\<close>.
\<close>

partial_function (option) streakLoop ::
  "zone \<Rightarrow> Task list \<Rightarrow> int option \<Rightarrow> nat \<Rightarrow> (jsError + nat) option" where
  "streakLoop tza tasks checkDate currentStreak =
     (case dateStr checkDate of
        Inl e \<Rightarrow> Some (Inl e)
      | Inr ds \<Rightarrow>
          (let dayTasks = filter (\<lambda>t. date t = ds \<and> completed t) tasks
           in if length dayTasks = 0 then Some (Inr currentStreak)
              else streakLoop tza tasks
                     (setDate tza checkDate (map_option (\<lambda>n. n - 1) (getDate tza checkDate)))
                     (currentStreak + 1)))"

text \<open>\<open>now\<close> is the reading of the clock, the time value of \<^verbatim>\<open>new Date()\<close>.\<close>

definition calculateStreak :: "zone \<Rightarrow> int \<Rightarrow> Task list \<Rightarrow> (jsError + nat) option" where
  "calculateStreak tza now tasks =
     (let today = Some now; checkDate = today
      in streakLoop tza tasks checkDate 0)"

section \<open>Month view: the grid (CalendarMonthView.tsx)\<close>





text \<open>
  The key under which a day cell looks up its tasks:
  \<^verbatim>\<open>
  const date = new Date(year, month, day);
  const dateStr = date.toISOString().split('T')[0];
  \<close>
\<close>

definition cellDateStr :: "zone \<Rightarrow> int option \<Rightarrow> int \<Rightarrow> jsError + string" where
  "cellDateStr tza selectedDate day =
     dateStr (newDate tza (getFullYear tza selectedDate) (getMonth tza selectedDate) (Some day))"

section \<open>Helper lemmas\<close>

lemma map_unmatched: "\<forall>t \<in> set ts. \<not> P t \<Longrightarrow> map (\<lambda>t. if P t then f t else t) ts = ts"
  by (induction ts) auto

text \<open>Rewrite rules that run the Date functions on concrete time values.\<close>

lemmas date_eval = isoDate_def isoYear_def zeroPad_def digit_def decimal.simps YearFromTime_def
  MonthFromTime_def DateFromTime_def DayWithinYear_def InLeapYear_def DaysInYear_def
  DayFromYear_def Day_def msPerDay_def Let_def

text \<open>The keys of four consecutive days, the last of them 2024-06-02T18:30:00Z.\<close>

lemma isoDate_examples:
  "isoDate 1717353000000 = ''2024-06-02''" "isoDate 1717266600000 = ''2024-06-01''"
  "isoDate 1717180200000 = ''2024-05-31''" "isoDate 1717093800000 = ''2024-05-30''"
  by (simp_all add: date_eval)

lemmas newDate_eval = newDate_def TimeClip_def UTC_def LocalTime_def fixedZone_def MakeDate_def
  MakeDay_def
  monthStart_def maxTime_def WeekDay_def YearFromTime_def MonthFromTime_def DateFromTime_def
  DayWithinYear_def InLeapYear_def DaysInYear_def DayFromYear_def Day_def msPerDay_def Let_def

lemma getters_Some:
  "getFullYear tza (Some t) = Some (YearFromTime (LocalTime tza t))"
  "getMonth tza (Some t) = Some (MonthFromTime (LocalTime tza t))"
  "getDate tza (Some t) = Some (DateFromTime (LocalTime tza t))"
  "getDay tza (Some t) = Some (WeekDay (LocalTime tza t))"
  "getDay tza None = None" "getDate tza None = None"
  by (simp_all add: getFullYear_def getMonth_def getDate_def getDay_def)

section \<open>Month view: the load of a day\<close>

text \<open>
  Claim C1. The load of a day is decided by a first-match chain over the tasks dated
  that day: urgent when one of them is urgent; otherwise high when at least two of them
  are high; otherwise medium when there are more than three of them; otherwise low when
  there is at least one; otherwise none. In particular one urgent task on the day makes
  the day urgent, whatever else is in the collection.
\<close>

theorem getTaskLoad_chain:
  "getTaskLoad tasks d =
     (if \<exists>t \<in> set tasks. date t = d \<and> priority t = Urgent then LoadUrgent
      else if 2 \<le> length (filter (\<lambda>t. date t = d \<and> priority t = High) tasks) then LoadHigh
      else if 3 < length (filter (\<lambda>t. date t = d) tasks) then LoadMedium
      else if 0 < length (filter (\<lambda>t. date t = d) tasks) then LoadLow
      else LoadNone)
   \<and> ((\<exists>t \<in> set tasks. date t = d \<and> priority t = Urgent) \<longrightarrow> getTaskLoad tasks d = LoadUrgent)"
proof -
  have u: "(0 < length (filter (\<lambda>t. priority t = Urgent) (filter (\<lambda>t. date t = d) tasks)))
        = (\<exists>t \<in> set tasks. date t = d \<and> priority t = Urgent)"
    by (auto simp: length_greater_0_conv filter_empty_conv simp del: length_0_conv)
  have h: "(1 < length (filter (\<lambda>t. priority t = High) (filter (\<lambda>t. date t = d) tasks)))
        = (2 \<le> length (filter (\<lambda>t. date t = d \<and> priority t = High) tasks))"
    by (simp add: conj_commute Suc_le_eq numeral_2_eq_2)
  show ?thesis
    unfolding getTaskLoad_def Let_def u h by simp
qed

theorem getTaskLoad_chain_witness:
  "getTaskLoad [mkTask ''a'' ''2024-06-03'' None Urgent False,
                mkTask ''b'' ''2024-06-03'' None Low False,
                mkTask ''c'' ''2024-06-04'' None High False] ''2024-06-03'' = LoadUrgent
   \<and> getTaskLoad [mkTask ''a'' ''2024-06-03'' None Urgent False,
                mkTask ''b'' ''2024-06-03'' None Low False,
                mkTask ''c'' ''2024-06-04'' None High False] ''2024-06-04'' = LoadLow
   \<and> getTaskLoad [mkTask ''a'' ''2024-06-03'' None Urgent False,
                mkTask ''b'' ''2024-06-03'' None Low False,
                mkTask ''c'' ''2024-06-04'' None High False] ''2024-06-05'' = LoadNone"
  using getTaskLoad_chain [of "[mkTask ''a'' ''2024-06-03'' None Urgent False,
                mkTask ''b'' ''2024-06-03'' None Low False,
                mkTask ''c'' ''2024-06-04'' None High False]" "''2024-06-03''"]
        getTaskLoad_chain [of "[mkTask ''a'' ''2024-06-03'' None Urgent False,
                mkTask ''b'' ''2024-06-03'' None Low False,
                mkTask ''c'' ''2024-06-04'' None High False]" "''2024-06-04''"]
        getTaskLoad_chain [of "[mkTask ''a'' ''2024-06-03'' None Urgent False,
                mkTask ''b'' ''2024-06-03'' None Low False,
                mkTask ''c'' ''2024-06-04'' None High False]" "''2024-06-05''"]
  by (simp add: mkTask_def)

section \<open>Sorting: what the insertion sort does\<close>

text \<open>
  On any comparator the sort rearranges its input. When any two elements are comparable
  and the comparison is transitive, no element of the result is followed by one that
  compares less; and elements that compare equal, as those of a class \<open>P\<close>, keep their
  input order.
\<close>

lemma mset_insert_js: "mset (insert_js compareFn x ys) = add_mset x (mset ys)"
  by (induction ys) simp_all

lemma mset_sort_js: "mset (sort_js compareFn xs) = mset xs"
  by (induction xs) (simp_all add: sort_js_def mset_insert_js)

lemma set_sort_js: "set (sort_js compareFn xs) = set xs"
  using mset_sort_js [of compareFn xs] by (metis set_mset_mset)

lemma sorted_insert_js:
  assumes total: "\<And>a b. compareFn a b \<le> 0 \<or> compareFn b a \<le> 0"
    and trans: "\<And>a b c. compareFn a b \<le> 0 \<Longrightarrow> compareFn b c \<le> 0 \<Longrightarrow> compareFn a c \<le> 0"
  shows "sorted_wrt (\<lambda>a b. compareFn a b \<le> 0) ys
      \<Longrightarrow> sorted_wrt (\<lambda>a b. compareFn a b \<le> 0) (insert_js compareFn x ys)"
proof (induction ys)
  case Nil
  show ?case by simp
next
  case (Cons y ys)
  show ?case
  proof (cases "compareFn x y \<le> 0")
    case True
    with Cons.prems trans have "\<forall>z \<in> set (y # ys). compareFn x z \<le> 0" by auto
    with True Cons.prems show ?thesis by simp
  next
    case False
    with total have yx: "compareFn y x \<le> 0" by blast
    from Cons.prems have "sorted_wrt (\<lambda>a b. compareFn a b \<le> 0) ys" by simp
    then have s: "sorted_wrt (\<lambda>a b. compareFn a b \<le> 0) (insert_js compareFn x ys)"
      by (rule Cons.IH)
    have "set (insert_js compareFn x ys) = insert x (set ys)"
      using mset_insert_js [of compareFn x ys] by (metis set_mset_add_mset_insert set_mset_mset)
    with yx Cons.prems have "\<forall>z \<in> set (insert_js compareFn x ys). compareFn y z \<le> 0" by simp
    with False s show ?thesis by simp
  qed
qed

lemma sorted_sort_js:
  assumes "\<And>a b. compareFn a b \<le> 0 \<or> compareFn b a \<le> 0"
    and "\<And>a b c. compareFn a b \<le> 0 \<Longrightarrow> compareFn b c \<le> 0 \<Longrightarrow> compareFn a c \<le> 0"
  shows "sorted_wrt (\<lambda>a b. compareFn a b \<le> 0) (sort_js compareFn xs)"
proof (induction xs)
  case Nil
  show ?case by (simp add: sort_js_def)
next
  case (Cons x xs)
  from sorted_insert_js [of compareFn, OF assms Cons.IH]
  show ?case by (simp add: sort_js_def)
qed

lemma filter_insert_js:
  assumes "\<And>y. P x \<Longrightarrow> P y \<Longrightarrow> compareFn x y \<le> 0"
  shows "filter P (insert_js compareFn x ys) = (if P x then x # filter P ys else filter P ys)"
  using assms by (induction ys) auto

lemma filter_sort_js:
  assumes "\<And>x y. P x \<Longrightarrow> P y \<Longrightarrow> compareFn x y \<le> 0"
  shows "filter P (sort_js compareFn xs) = filter P xs"
proof (induction xs)
  case Nil
  show ?case by (simp add: sort_js_def)
next
  case (Cons x xs)
  have "filter P (insert_js compareFn x (sort_js compareFn xs))
      = (if P x then x # filter P (sort_js compareFn xs) else filter P (sort_js compareFn xs))"
    by (rule filter_insert_js) (rule assms)
  with Cons.IH show ?case by (simp add: sort_js_def)
qed

section \<open>List view: the order of the tasks\<close>

text \<open>
  What is known of the collation. ECMAScript requires \<^verbatim>\<open>localeCompare\<close> to be a
  consistent comparator, a total order on all strings up to ties: comparing the other
  way round gives the opposite sign, and the comparison is transitive.
\<close>

definition consistentCollation :: "collation \<Rightarrow> bool" where
  "consistentCollation localeCompare =
     (\<forall>a b c. ((localeCompare a b < 0) = (0 < localeCompare b a))
        \<and> (localeCompare a b \<le> 0 \<and> localeCompare b c \<le> 0 \<longrightarrow> localeCompare a c \<le> 0))"

text \<open>
  The dates of this program are keys \<^verbatim>\<open>YYYY-MM-DD\<close> and its times are \<^verbatim>\<open>HH:MM\<close>: digits
  with \<^verbatim>\<open>-\<close> and \<^verbatim>\<open>:\<close> at fixed places (in a shape, \<^verbatim>\<open>d\<close> stands for a digit). The
  collations put the digits in their numeric order, so on two date keys, or two times,
  \<^verbatim>\<open>localeCompare\<close> follows the order of the strings, which is that of the days and of
  the times of day. No such thing holds of other strings: a collation may put
  \<^verbatim>\<open>-000001-01-01\<close> before \<^verbatim>\<open>+010000-01-01\<close>, which the order of the strings puts after.
\<close>

definition isDigit :: "char \<Rightarrow> bool" where
  "isDigit c = (c \<in> set ''0123456789'')"

definition hasShape :: "string \<Rightarrow> string \<Rightarrow> bool" where
  "hasShape shape s = list_all2 (\<lambda>p c. if p = CHR ''d'' then isDigit c else c = p) shape s"

definition isDateKey :: "string \<Rightarrow> bool" where
  "isDateKey s = hasShape ''dddd-dd-dd'' s"

definition isTimeKey :: "string \<Rightarrow> bool" where
  "isTimeKey s = hasShape ''dd:dd'' s"

definition collatesKeys :: "collation \<Rightarrow> bool" where
  "collatesKeys localeCompare =
     (\<forall>a b. (isDateKey a \<and> isDateKey b) \<or> (isTimeKey a \<and> isTimeKey b) \<longrightarrow>
        ((localeCompare a b < 0) = (a < b)) \<and> ((localeCompare a b = 0) = (a = b)))"

definition plainKeys :: "Task \<Rightarrow> bool" where
  "plainKeys t = (isDateKey (date t) \<and> (truthy (time t) \<longrightarrow> isTimeKey (the (time t))))"

text \<open>The collation that is the order of the strings; it is consistent and collates keys.\<close>

definition charOrder :: collation where
  "charOrder a b = (if a < b then -1 else if a = b then 0 else 1)"

text \<open>The three tasks of the example: A at 09:00, B without a time, C at 08:00.\<close>

definition taskA :: Task where
  "taskA = mkTask ''A'' ''2024-06-01'' (Some ''09:00'') Medium False"

definition taskB :: Task where
  "taskB = mkTask ''B'' ''2024-06-01'' None Medium False"

definition taskC :: Task where
  "taskC = mkTask ''C'' ''2024-06-01'' (Some ''08:00'') Medium False"

subsection \<open>The comparator of the list view is consistent\<close>

lemma collation_total:
  "consistentCollation lc \<Longrightarrow> lc a b \<le> 0 \<or> lc b a \<le> 0"
  unfolding consistentCollation_def by (metis not_le order_less_imp_le)

lemma collation_trans:
  "consistentCollation lc \<Longrightarrow> lc a b \<le> 0 \<Longrightarrow> lc b c \<le> 0 \<Longrightarrow> lc a c \<le> 0"
  unfolding consistentCollation_def by blast

lemma collation_less: "consistentCollation lc \<Longrightarrow> (lc a b < 0) = (\<not> lc b a \<le> 0)"
  unfolding consistentCollation_def by (metis not_le)

lemma collation_eq: "consistentCollation lc \<Longrightarrow> (lc a b = 0) = (lc a b \<le> 0 \<and> lc b a \<le> 0)"
proof -
  assume c: "consistentCollation lc"
  have "(lc a b = 0) = (\<not> lc a b < 0 \<and> lc a b \<le> 0)" by auto
  then show ?thesis unfolding collation_less [OF c] by auto
qed

text \<open>
  \<open>timeLe\<close>: the order of the times of two tasks of one date. A task with a time comes
  before a task without, two tasks with a time go by the collation of the times.
\<close>

definition timeLe :: "collation \<Rightarrow> Task \<Rightarrow> Task \<Rightarrow> bool" where
  "timeLe lc a b =
     (if truthy (time a) then (truthy (time b) \<longrightarrow> lc (the (time a)) (the (time b)) \<le> 0)
      else \<not> truthy (time b))"

lemma compareTasks_le:
  assumes "consistentCollation lc"
  shows "(compareTasks lc a b \<le> 0)
       = (lc (date a) (date b) \<le> 0 \<and> (lc (date b) (date a) \<le> 0 \<longrightarrow> timeLe lc a b))"
proof -
  have "(compareTasks lc a b \<le> 0)
      = (lc (date a) (date b) < 0 \<or> (lc (date a) (date b) = 0 \<and> timeLe lc a b))"
    by (auto simp: compareTasks_def timeLe_def Let_def)
  also have "\<dots> = (lc (date a) (date b) \<le> 0 \<and> (lc (date b) (date a) \<le> 0 \<longrightarrow> timeLe lc a b))"
    unfolding collation_less [OF assms] collation_eq [OF assms]
    using collation_total [OF assms, of "date a" "date b"] by blast
  finally show ?thesis .
qed

lemma timeLe_total: "consistentCollation lc \<Longrightarrow> timeLe lc a b \<or> timeLe lc b a"
  using collation_total [of lc "the (time a)" "the (time b)"] by (auto simp: timeLe_def)

lemma timeLe_trans:
  "consistentCollation lc \<Longrightarrow> timeLe lc a b \<Longrightarrow> timeLe lc b c \<Longrightarrow> timeLe lc a c"
  using collation_trans [of lc "the (time a)" "the (time b)" "the (time c)"]
  by (auto simp: timeLe_def split: if_splits)

lemma compareTasks_total:
  assumes "consistentCollation lc"
  shows "compareTasks lc a b \<le> 0 \<or> compareTasks lc b a \<le> 0"
  unfolding compareTasks_le [OF assms]
  using collation_total [OF assms, of "date a" "date b"] timeLe_total [OF assms, of a b]
  by blast

lemma compareTasks_trans:
  assumes "consistentCollation lc"
    and "compareTasks lc a b \<le> 0" and "compareTasks lc b c \<le> 0"
  shows "compareTasks lc a c \<le> 0"
proof -
  from assms(2,3)
  have ab: "lc (date a) (date b) \<le> 0" "lc (date b) (date a) \<le> 0 \<Longrightarrow> timeLe lc a b"
    and bc: "lc (date b) (date c) \<le> 0" "lc (date c) (date b) \<le> 0 \<Longrightarrow> timeLe lc b c"
    unfolding compareTasks_le [OF assms(1)] by simp_all
  from ab(1) bc(1) have ac: "lc (date a) (date c) \<le> 0" by (rule collation_trans [OF assms(1)])
  have "timeLe lc a c" if ca: "lc (date c) (date a) \<le> 0"
  proof -
    from bc(1) ca have "lc (date b) (date a) \<le> 0" by (rule collation_trans [OF assms(1)])
    then have 1: "timeLe lc a b" by (rule ab(2))
    from ca ab(1) have "lc (date c) (date b) \<le> 0" by (rule collation_trans [OF assms(1)])
    then have "timeLe lc b c" by (rule bc(2))
    with 1 show ?thesis by (rule timeLe_trans [OF assms(1)])
  qed
  with ac show ?thesis unfolding compareTasks_le [OF assms(1)] by simp
qed

lemma set_filterTasks: "set (filterTasks s e q tasks) \<subseteq> set tasks"
  by (auto simp: filterTasks_def Let_def)

lemma keys_of_example:
  "isDateKey ''2024-06-01''" "isTimeKey ''09:00''" "isTimeKey ''08:00''"
  by (simp_all add: isDateKey_def isTimeKey_def hasShape_def isDigit_def)

lemma listView_example:
  assumes "collatesKeys lc"
  shows "filteredTasks lc [] [] [] [taskA, taskB, taskC] = [taskC, taskA, taskB]"
proof -
  from assms keys_of_example have d: "lc ''2024-06-01'' ''2024-06-01'' = 0"
    unfolding collatesKeys_def by blast
  from assms keys_of_example
  have "(lc ''09:00'' ''08:00'' < 0) = (''09:00'' < ''08:00'')"
    "(lc ''09:00'' ''08:00'' = 0) = (''09:00'' = ''08:00'')"
    unfolding collatesKeys_def by blast+
  then have t: "\<not> lc ''09:00'' ''08:00'' \<le> 0" by simp
  show ?thesis
    by (simp add: filteredTasks_def filterTasks_def sort_js_def compareTasks_def
        truthy_def mkTask_def trim_def taskA_def taskB_def taskC_def d t)
qed

text \<open>
  Claim C2, for a consistent collation. The list view shows the filtered tasks,
  rearranged (nothing added or lost), in ascending order of date by the collation. Of
  two tasks whose dates collate equal, the earlier in the list never has the later time
  when both have a time, and a task without a time never stands before a task with one.
  The sort is stable: the tasks of one date without a time keep their input order, and
  so do the tasks of one date with the same time. A time is present when it is a
  non-empty string.

  When the tasks carry plain keys (dates \<^verbatim>\<open>YYYY-MM-DD\<close>, times \<^verbatim>\<open>HH:MM\<close>), on which the
  collation is the order of the strings, all of this holds with the order and the
  equality of the date and time strings in place of the collation: the result is in
  ascending order of date, and within a date in ascending order of time, the tasks
  without a time last and in input order. On the tasks A (09:00), B (no time), C
  (08:00) of 2024-06-01 the result is C, A, B.
\<close>

theorem listView_sorted:
  assumes "consistentCollation lc"
  shows "mset (filteredTasks lc s e q tasks) = mset (filterTasks s e q tasks)
   \<and> sorted_wrt (\<lambda>a b. lc (date a) (date b) \<le> 0) (filteredTasks lc s e q tasks)
   \<and> sorted_wrt (\<lambda>a b. lc (date a) (date b) = 0 \<longrightarrow>
         (truthy (time a) \<and> truthy (time b) \<longrightarrow> lc (the (time a)) (the (time b)) \<le> 0)
       \<and> (truthy (time b) \<longrightarrow> truthy (time a))) (filteredTasks lc s e q tasks)
   \<and> (\<forall>d. filter (\<lambda>t. lc (date t) d = 0 \<and> \<not> truthy (time t)) (filteredTasks lc s e q tasks)
          = filter (\<lambda>t. lc (date t) d = 0 \<and> \<not> truthy (time t)) (filterTasks s e q tasks))
   \<and> (\<forall>d tm. filter (\<lambda>t. lc (date t) d = 0 \<and> truthy (time t) \<and> lc (the (time t)) tm = 0)
            (filteredTasks lc s e q tasks)
          = filter (\<lambda>t. lc (date t) d = 0 \<and> truthy (time t) \<and> lc (the (time t)) tm = 0)
            (filterTasks s e q tasks))
   \<and> (collatesKeys lc \<and> (\<forall>t \<in> set tasks. plainKeys t) \<longrightarrow>
        sorted_wrt (\<lambda>a b. date a \<le> date b) (filteredTasks lc s e q tasks)
      \<and> sorted_wrt (\<lambda>a b. date a = date b \<longrightarrow>
            (truthy (time a) \<and> truthy (time b) \<longrightarrow> the (time a) \<le> the (time b))
          \<and> (truthy (time b) \<longrightarrow> truthy (time a))) (filteredTasks lc s e q tasks)
      \<and> (\<forall>d. filter (\<lambda>t. date t = d \<and> \<not> truthy (time t)) (filteredTasks lc s e q tasks)
             = filter (\<lambda>t. date t = d \<and> \<not> truthy (time t)) (filterTasks s e q tasks))
      \<and> (\<forall>d tm. filter (\<lambda>t. date t = d \<and> truthy (time t) \<and> time t = Some tm)
               (filteredTasks lc s e q tasks)
             = filter (\<lambda>t. date t = d \<and> truthy (time t) \<and> time t = Some tm)
               (filterTasks s e q tasks)))
   \<and> (collatesKeys lc \<longrightarrow> filteredTasks lc [] [] [] [taskA, taskB, taskC] = [taskC, taskA, taskB])"
proof -
  let ?f = "filterTasks s e q tasks"
  let ?r = "filteredTasks lc s e q tasks"
  note c = assms
  have srt: "sorted_wrt (\<lambda>a b. compareTasks lc a b \<le> 0) ?r"
    unfolding filteredTasks_def
    by (rule sorted_sort_js) (rule compareTasks_total [OF c], rule compareTasks_trans [OF c])
  have 1: "mset ?r = mset ?f" by (simp add: filteredTasks_def mset_sort_js)
  have 2: "sorted_wrt (\<lambda>a b. lc (date a) (date b) \<le> 0) ?r"
    using srt by (rule sorted_wrt_mono_rel [rotated]) (simp add: compareTasks_le [OF c])
  have 3: "sorted_wrt (\<lambda>a b. lc (date a) (date b) = 0 \<longrightarrow>
         (truthy (time a) \<and> truthy (time b) \<longrightarrow> lc (the (time a)) (the (time b)) \<le> 0)
       \<and> (truthy (time b) \<longrightarrow> truthy (time a))) ?r"
    using srt
    by (rule sorted_wrt_mono_rel [rotated])
      (auto simp: compareTasks_le [OF c] collation_eq [OF c] timeLe_def split: if_splits)
  have 4: "filter (\<lambda>t. lc (date t) d = 0 \<and> \<not> truthy (time t)) ?r
         = filter (\<lambda>t. lc (date t) d = 0 \<and> \<not> truthy (time t)) ?f" for d
    unfolding filteredTasks_def
  proof (rule filter_sort_js)
    fix x y :: Task
    assume "lc (date x) d = 0 \<and> \<not> truthy (time x)" "lc (date y) d = 0 \<and> \<not> truthy (time y)"
    then have "lc (date x) d \<le> 0" "lc d (date y) \<le> 0" "\<not> truthy (time x)" "\<not> truthy (time y)"
      by (simp_all add: collation_eq [OF c])
    then show "compareTasks lc x y \<le> 0"
      using collation_trans [OF c, of "date x" d "date y"]
      by (simp add: compareTasks_le [OF c] timeLe_def)
  qed
  have 5: "filter (\<lambda>t. lc (date t) d = 0 \<and> truthy (time t) \<and> lc (the (time t)) tm = 0) ?r
         = filter (\<lambda>t. lc (date t) d = 0 \<and> truthy (time t) \<and> lc (the (time t)) tm = 0) ?f"
    for d tm
    unfolding filteredTasks_def
  proof (rule filter_sort_js)
    fix x y :: Task
    assume "lc (date x) d = 0 \<and> truthy (time x) \<and> lc (the (time x)) tm = 0"
      "lc (date y) d = 0 \<and> truthy (time y) \<and> lc (the (time y)) tm = 0"
    then have "lc (date x) d \<le> 0" "lc d (date y) \<le> 0" "truthy (time x)" "truthy (time y)"
      "lc (the (time x)) tm \<le> 0" "lc tm (the (time y)) \<le> 0"
      by (simp_all add: collation_eq [OF c])
    then show "compareTasks lc x y \<le> 0"
      using collation_trans [OF c, of "date x" d "date y"]
        collation_trans [OF c, of "the (time x)" tm "the (time y)"]
      by (simp add: compareTasks_le [OF c] timeLe_def)
  qed
  have 6: "sorted_wrt (\<lambda>a b. date a \<le> date b) ?r
      \<and> sorted_wrt (\<lambda>a b. date a = date b \<longrightarrow>
            (truthy (time a) \<and> truthy (time b) \<longrightarrow> the (time a) \<le> the (time b))
          \<and> (truthy (time b) \<longrightarrow> truthy (time a))) ?r
      \<and> (\<forall>d. filter (\<lambda>t. date t = d \<and> \<not> truthy (time t)) ?r
             = filter (\<lambda>t. date t = d \<and> \<not> truthy (time t)) ?f)
      \<and> (\<forall>d tm. filter (\<lambda>t. date t = d \<and> truthy (time t) \<and> time t = Some tm) ?r
             = filter (\<lambda>t. date t = d \<and> truthy (time t) \<and> time t = Some tm) ?f)"
    if k: "collatesKeys lc" and p: "\<forall>t \<in> set tasks. plainKeys t"
  proof -
    have sf: "set ?f \<subseteq> set tasks" by (rule set_filterTasks)
    have sr: "set ?r = set ?f" by (simp add: filteredTasks_def set_sort_js)
    have pk: "plainKeys t" if "t \<in> set ?r \<or> t \<in> set ?f" for t
      using that p sf sr by blast
    have dle: "(lc a b \<le> 0) = (a \<le> b)" "(lc a b = 0) = (a = b)"
      if "(isDateKey a \<and> isDateKey b) \<or> (isTimeKey a \<and> isTimeKey b)" for a b
    proof -
      from k that have "(lc a b < 0) = (a < b)" and e: "(lc a b = 0) = (a = b)"
        unfolding collatesKeys_def by blast+
      then show "(lc a b \<le> 0) = (a \<le> b)" by (auto simp: le_less)
      from e show "(lc a b = 0) = (a = b)" .
    qed
    have a: "sorted_wrt (\<lambda>a b. date a \<le> date b) ?r"
    proof (rule sorted_wrt_mono_rel [OF _ 2])
      fix x y assume "x \<in> set ?r" "y \<in> set ?r" "lc (date x) (date y) \<le> 0"
      with pk [of x] pk [of y] show "date x \<le> date y"
        by (simp add: plainKeys_def dle)
    qed
    have b: "sorted_wrt (\<lambda>a b. date a = date b \<longrightarrow>
            (truthy (time a) \<and> truthy (time b) \<longrightarrow> the (time a) \<le> the (time b))
          \<and> (truthy (time b) \<longrightarrow> truthy (time a))) ?r"
    proof (rule sorted_wrt_mono_rel [OF _ 3])
      fix x y assume xy: "x \<in> set ?r" "y \<in> set ?r"
        and h: "lc (date x) (date y) = 0 \<longrightarrow>
         (truthy (time x) \<and> truthy (time y) \<longrightarrow> lc (the (time x)) (the (time y)) \<le> 0)
         \<and> (truthy (time y) \<longrightarrow> truthy (time x))"
      from xy pk [of x] pk [of y]
      have kx: "isDateKey (date x)" "isDateKey (date y)"
        "truthy (time x) \<Longrightarrow> isTimeKey (the (time x))"
        "truthy (time y) \<Longrightarrow> isTimeKey (the (time y))"
        by (simp_all add: plainKeys_def)
      show "date x = date y \<longrightarrow>
            (truthy (time x) \<and> truthy (time y) \<longrightarrow> the (time x) \<le> the (time y))
          \<and> (truthy (time y) \<longrightarrow> truthy (time x))"
      proof
        assume "date x = date y"
        with kx(1,2) have "lc (date x) (date y) = 0" by (simp add: dle)
        with h have t: "truthy (time x) \<and> truthy (time y) \<longrightarrow> lc (the (time x)) (the (time y)) \<le> 0"
          and u: "truthy (time y) \<longrightarrow> truthy (time x)" by simp_all
        from t kx(3,4) have "truthy (time x) \<and> truthy (time y) \<longrightarrow> the (time x) \<le> the (time y)"
          by (auto simp: dle)
        with u show "(truthy (time x) \<and> truthy (time y) \<longrightarrow> the (time x) \<le> the (time y))
          \<and> (truthy (time y) \<longrightarrow> truthy (time x))" by simp
      qed
    qed
    have c': "filter (\<lambda>t. date t = d \<and> \<not> truthy (time t)) ?r
             = filter (\<lambda>t. date t = d \<and> \<not> truthy (time t)) ?f" for d
    proof (cases "isDateKey d")
      case True
      have "filter (\<lambda>t. date t = d \<and> \<not> truthy (time t)) xs
          = filter (\<lambda>t. lc (date t) d = 0 \<and> \<not> truthy (time t)) xs"
        if "\<forall>t \<in> set xs. plainKeys t" for xs
        using that True by (intro filter_cong [OF refl]) (simp add: plainKeys_def dle)
      from this [of ?r] this [of ?f] pk 4 [of d] show ?thesis by simp
    next
      case False
      have "filter (\<lambda>t. date t = d \<and> \<not> truthy (time t)) xs = []"
        if "\<forall>t \<in> set xs. plainKeys t" for xs
        using that False by (auto simp: filter_empty_conv plainKeys_def)
      from this [of ?r] this [of ?f] pk show ?thesis by simp
    qed
    have d': "filter (\<lambda>t. date t = d \<and> truthy (time t) \<and> time t = Some tm) ?r
             = filter (\<lambda>t. date t = d \<and> truthy (time t) \<and> time t = Some tm) ?f" for d tm
    proof (cases "isDateKey d \<and> isTimeKey tm")
      case True
      have "filter (\<lambda>t. date t = d \<and> truthy (time t) \<and> time t = Some tm) xs
          = filter (\<lambda>t. lc (date t) d = 0 \<and> truthy (time t) \<and> lc (the (time t)) tm = 0) xs"
        if "\<forall>t \<in> set xs. plainKeys t" for xs
        using that True
        by (intro filter_cong [OF refl]) (auto simp: plainKeys_def dle truthy_def split: option.splits)
      from this [of ?r] this [of ?f] pk 5 [of d tm] show ?thesis by simp
    next
      case False
      have "filter (\<lambda>t. date t = d \<and> truthy (time t) \<and> time t = Some tm) xs = []"
        if "\<forall>t \<in> set xs. plainKeys t" for xs
        using that False by (auto simp: filter_empty_conv plainKeys_def)
      from this [of ?r] this [of ?f] pk show ?thesis by simp
    qed
    from a b c' d' show ?thesis by blast
  qed
  have 7: "filteredTasks lc [] [] [] [taskA, taskB, taskC] = [taskC, taskA, taskB]"
    if "collatesKeys lc" using that by (rule listView_example)
  from 1 2 3 4 5 6 7 show ?thesis by blast
qed

theorem listView_sorted_witness:
  "consistentCollation charOrder \<and> collatesKeys charOrder
   \<and> filteredTasks charOrder ''2024-06-01'' ''2024-06-30'' ''rep''
      [mkTask ''Report b'' ''2024-06-02'' None High False,
       mkTask ''Gym'' ''2024-06-01'' None Low False,
       mkTask ''Old report'' ''2024-05-31'' None Low False,
       mkTask ''REPORT a'' ''2024-06-02'' None Low False,
       mkTask ''Prepare'' ''2024-06-01'' (Some ''10:30'') Low False]
     = [mkTask ''Prepare'' ''2024-06-01'' (Some ''10:30'') Low False,
        mkTask ''Report b'' ''2024-06-02'' None High False,
        mkTask ''REPORT a'' ''2024-06-02'' None Low False]
   \<and> filter (\<lambda>t. date t = ''2024-06-02'' \<and> \<not> truthy (time t))
       (filteredTasks charOrder ''2024-06-01'' ''2024-06-30'' ''rep''
         [mkTask ''Report b'' ''2024-06-02'' None High False,
          mkTask ''Gym'' ''2024-06-01'' None Low False,
          mkTask ''Old report'' ''2024-05-31'' None Low False,
          mkTask ''REPORT a'' ''2024-06-02'' None Low False,
          mkTask ''Prepare'' ''2024-06-01'' (Some ''10:30'') Low False])
     = [mkTask ''Report b'' ''2024-06-02'' None High False,
        mkTask ''REPORT a'' ''2024-06-02'' None Low False]
   \<and> filteredTasks charOrder [] [] [] [taskA, taskB, taskC] = [taskC, taskA, taskB]"
proof -
  let ?ts = "[mkTask ''Report b'' ''2024-06-02'' None High False,
       mkTask ''Gym'' ''2024-06-01'' None Low False,
       mkTask ''Old report'' ''2024-05-31'' None Low False,
       mkTask ''REPORT a'' ''2024-06-02'' None Low False,
       mkTask ''Prepare'' ''2024-06-01'' (Some ''10:30'') Low False]"
  have cc: "consistentCollation charOrder"
    by (auto simp: consistentCollation_def charOrder_def)
  have ck: "collatesKeys charOrder"
    by (simp add: collatesKeys_def charOrder_def)
  have pk: "\<forall>t \<in> set ?ts. plainKeys t"
    by (simp add: plainKeys_def isDateKey_def isTimeKey_def hasShape_def isDigit_def truthy_def
        mkTask_def)
  have f: "filterTasks ''2024-06-01'' ''2024-06-30'' ''rep'' ?ts
      = [mkTask ''Report b'' ''2024-06-02'' None High False,
         mkTask ''REPORT a'' ''2024-06-02'' None Low False,
         mkTask ''Prepare'' ''2024-06-01'' (Some ''10:30'') Low False]"
    by (simp add: filterTasks_def mkTask_def trim_def isWhiteSpace_def toLowerCase_def
        toLowerChar_def upperCase_def lowerCase_def)
  have r: "filteredTasks charOrder ''2024-06-01'' ''2024-06-30'' ''rep'' ?ts
      = [mkTask ''Prepare'' ''2024-06-01'' (Some ''10:30'') Low False,
         mkTask ''Report b'' ''2024-06-02'' None High False,
         mkTask ''REPORT a'' ''2024-06-02'' None Low False]"
    unfolding filteredTasks_def f
    by (simp add: sort_js_def compareTasks_def charOrder_def truthy_def mkTask_def)
  from listView_sorted [OF cc, of "''2024-06-01''" "''2024-06-30''" "''rep''" ?ts] ck pk
  have st: "filter (\<lambda>t. date t = ''2024-06-02'' \<and> \<not> truthy (time t))
          (filteredTasks charOrder ''2024-06-01'' ''2024-06-30'' ''rep'' ?ts)
      = filter (\<lambda>t. date t = ''2024-06-02'' \<and> \<not> truthy (time t))
          (filterTasks ''2024-06-01'' ''2024-06-30'' ''rep'' ?ts)"
    and e: "filteredTasks charOrder [] [] [] [taskA, taskB, taskC] = [taskC, taskA, taskB]"
    by blast+
  note st
  also have "filter (\<lambda>t. date t = ''2024-06-02'' \<and> \<not> truthy (time t))
          (filterTasks ''2024-06-01'' ''2024-06-30'' ''rep'' ?ts)
      = [mkTask ''Report b'' ''2024-06-02'' None High False,
        mkTask ''REPORT a'' ''2024-06-02'' None Low False]"
    unfolding f by (simp add: mkTask_def truthy_def)
  finally show ?thesis using cc ck r e by simp
qed

section \<open>Date keys: UTC day against local day\<close>

text \<open>
  The date key as the specification words it: the \<^verbatim>\<open>YYYY-MM-DD\<close> string of the local
  calendar day of a point in time, that is, of the day of the local time.
\<close>

definition dateKey_spec :: "zone \<Rightarrow> int option \<Rightarrow> jsError + string" where
  "dateKey_spec tza d = (case d of None \<Rightarrow> Inl RangeError | Some t \<Rightarrow> Inr (isoDate (LocalTime tza t)))"

text \<open>The key of the components is the key of the UTC day, whatever the local zone.\<close>

lemma dateStr_is_UTC_day: "dateStr d = dateKey_spec (fixedZone 0) d"
  by (cases d) (simp_all add: dateStr_Some dateStr_None dateKey_spec_def LocalTime_def fixedZone_def)

text \<open>
  Claim C3 says that the date key of a point in time is the \<^verbatim>\<open>YYYY-MM-DD\<close> string of
  its local calendar day, not of its UTC day. The code does not compute that key. In a
  zone five and a half hours ahead of UTC, take local midnight at the start of 3 June
  2024, the instant 2024-06-02T18:30:00Z. The key of the components is that of the UTC
  day, 2024-06-02; the key of the local day is 2024-06-03. This instant is the Date that
  the month view builds for the cell of day 3 of June 2024
  (\<^verbatim>\<open>new Date(2024, 5, 3)\<close>), so the cell labelled 3 looks up the tasks dated
  2024-06-02.
\<close>

theorem dateStr_is_not_local_day:
  "dateStr (Some 1717353000000) = Inr ''2024-06-02''
   \<and> dateKey_spec (fixedZone 19800000) (Some 1717353000000) = Inr ''2024-06-03''
   \<and> newDate (fixedZone 19800000) (Some 2024) (Some 5) (Some 3) = Some 1717353000000
   \<and> cellDateStr (fixedZone 19800000) (Some 1717353000000) 3 = Inr ''2024-06-02''"
proof -
  have a: "dateStr (Some 1717353000000) = Inr ''2024-06-02''"
    by (simp add: dateStr_Some isoDate_examples)
  have b: "dateKey_spec (fixedZone 19800000) (Some 1717353000000) = Inr ''2024-06-03''"
    by (simp add: dateKey_spec_def LocalTime_def fixedZone_def date_eval)
  have c: "newDate (fixedZone 19800000) (Some 2024) (Some 5) (Some 3) = Some 1717353000000"
    by (simp add: newDate_eval)
  have "getFullYear (fixedZone 19800000) (Some 1717353000000) = Some 2024"
    "getMonth (fixedZone 19800000) (Some 1717353000000) = Some 5"
    by (simp_all add: getters_Some newDate_eval)
  then have "cellDateStr (fixedZone 19800000) (Some 1717353000000) 3 = Inr ''2024-06-02''"
    by (simp add: cellDateStr_def c a)
  with a b c show ?thesis by blast
qed

section \<open>Streak: consecutive days with a completed task\<close>

text \<open>
  \<open>completedOn tasks key\<close>: some completed task is dated \<open>key\<close>. The day \<open>k\<close> days before
  today has two keys: \<open>localDayKey tza now k\<close>, the key of the local calendar day, which
  is the day the user sees and the day that \<^verbatim>\<open>setDate(getDate() - 1)\<close> steps over, and
  \<open>utcDayKey now k\<close>, the key of the UTC day.
\<close>

definition completedOn :: "Task list \<Rightarrow> string \<Rightarrow> bool" where
  "completedOn tasks key = (\<exists>t \<in> set tasks. date t = key \<and> completed t)"

definition localDayKey :: "zone \<Rightarrow> int \<Rightarrow> nat \<Rightarrow> string" where
  "localDayKey tza now k = isoDate ((Day (LocalTime tza now) - int k) * msPerDay)"

definition utcDayKey :: "int \<Rightarrow> nat \<Rightarrow> string" where
  "utcDayKey now k = isoDate ((Day now - int k) * msPerDay)"

text \<open>
  The offsets of America/New_York in the autumn of 2024: four hours behind UTC until
  2024-11-03T06:00:00Z, when the clocks go back from 02:00 to 01:00, and five hours
  behind from then on. A local time from 01:00 to 02:00 of that day occurs twice and is
  read with the offset before the change.
\<close>

definition newYorkAutumn2024 :: zone where
  "newYorkAutumn2024 t isUTC =
     (if isUTC then (if t < 1730613600000 then - 14400000 else - 18000000)
      else (if t < 1730599200000 then - 14400000 else - 18000000))"

text \<open>Completed tasks on 3, 2 and 1 June 2024, and a task of 31 May that is not completed.\<close>

definition juneTasks :: "Task list" where
  "juneTasks =
     [mkTask ''a'' ''2024-06-03'' None Low True,
      mkTask ''b'' ''2024-06-02'' None Medium True,
      mkTask ''c'' ''2024-06-01'' None Low True,
      mkTask ''d'' ''2024-05-31'' None Low False]"

subsection \<open>The steps of the loop\<close>

lemma setDate_yesterday:
  "setDate tza (Some t) (map_option (\<lambda>n. n - 1) (getDate tza (Some t)))
     = TimeClip (UTC tza (LocalTime tza t - msPerDay))"
  using setDate_getDate [of tza t "- 1"] by simp

lemma no_dayTasks: "(filter (\<lambda>t. date t = ds \<and> completed t) tasks = []) = (\<not> completedOn tasks ds)"
  by (auto simp: completedOn_def filter_empty_conv)

lemma streakLoop_stop:
  "\<not> completedOn tasks (isoDate t) \<Longrightarrow> streakLoop tza tasks (Some t) n = Some (Inr n)"
  by (subst streakLoop.simps) (simp add: dateStr_Some no_dayTasks)

lemma streakLoop_step:
  "completedOn tasks (isoDate t) \<Longrightarrow>
   streakLoop tza tasks (Some t) n
     = streakLoop tza tasks (TimeClip (UTC tza (LocalTime tza t - msPerDay))) (n + 1)"
  by (subst streakLoop.simps) (simp add: dateStr_Some no_dayTasks setDate_yesterday)

lemma streakLoop_invalid: "streakLoop tza tasks None n = Some (Inl RangeError)"
  by (subst streakLoop.simps) (simp add: dateStr_None)

lemmas streak_eval = calculateStreak_def streakLoop_step streakLoop_stop completedOn_def
  mkTask_def TimeClip_def maxTime_def msPerDay_def LocalTime_def UTC_def fixedZone_def

subsection \<open>A zone with one offset: the days counted are the UTC days\<close>

lemma YearFromTime_Day: "Day t = Day t' \<Longrightarrow> YearFromTime t = YearFromTime t'"
  by (simp add: YearFromTime_def)

lemma isoDate_Day: "Day t = Day t' \<Longrightarrow> isoDate t = isoDate t'"
proof -
  assume d: "Day t = Day t'"
  then have y: "YearFromTime t = YearFromTime t'" by (rule YearFromTime_Day)
  have l: "InLeapYear t = InLeapYear t'" by (simp add: InLeapYear_def y)
  have w: "DayWithinYear t = DayWithinYear t'" by (simp add: DayWithinYear_def y d)
  have m: "MonthFromTime t = MonthFromTime t'" by (simp add: MonthFromTime_def l w)
  have "DateFromTime t = DateFromTime t'" by (simp add: DateFromTime_def l w m)
  with y m show ?thesis by (simp add: isoDate_def)
qed

lemma Day_shift: "Day (t + j * msPerDay) = Day t + j"
  by (simp add: Day_def msPerDay_def)

lemma utcDayKey_walk: "utcDayKey now k = isoDate (now - int k * msPerDay)"
proof -
  have "Day ((Day now - int k) * msPerDay) = Day (now - int k * msPerDay)"
    using Day_shift [of 0 "Day now - int k"] Day_shift [of now "- int k"]
    by (simp add: Day_def)
  then show ?thesis unfolding utcDayKey_def by (rule isoDate_Day)
qed

lemma utcDayKey_inj: "utcDayKey now j = utcDayKey now k \<Longrightarrow> j = k"
proof -
  assume "utcDayKey now j = utcDayKey now k"
  then have "Day ((Day now - int j) * msPerDay) = Day ((Day now - int k) * msPerDay)"
    unfolding utcDayKey_def by (rule isoDate_inj)
  then show ?thesis
    using Day_shift [of 0 "Day now - int j"] Day_shift [of 0 "Day now - int k"]
    by (simp add: Day_def)
qed

lemma streakLoop_unroll:
  assumes "\<forall>j < k. completedOn tasks (isoDate (t - int j * msPerDay))"
    and "- maxTime \<le> t - int k * msPerDay" and "t \<le> maxTime"
  shows "streakLoop (fixedZone offset) tasks (Some t) n
       = streakLoop (fixedZone offset) tasks (Some (t - int k * msPerDay)) (n + k)"
  using assms
proof (induction k)
  case 0
  show ?case by simp
next
  case (Suc k)
  have ms: "0 < msPerDay" by (simp add: msPerDay_def)
  have le: "t - int (Suc k) * msPerDay \<le> t - int k * msPerDay"
    using ms by (simp add: algebra_simps)
  have le0: "t - int (Suc k) * msPerDay \<le> t"
    using ms by (simp add: algebra_simps)
  from Suc.prems le have "- maxTime \<le> t - int k * msPerDay" by linarith
  with Suc have "streakLoop (fixedZone offset) tasks (Some t) n
      = streakLoop (fixedZone offset) tasks (Some (t - int k * msPerDay)) (n + k)" by simp
  also from Suc.prems(1)
  have "\<dots> = streakLoop (fixedZone offset) tasks
      (TimeClip (UTC (fixedZone offset) (LocalTime (fixedZone offset) (t - int k * msPerDay) - msPerDay)))
      (n + k + 1)"
    by (intro streakLoop_step) simp
  also have "UTC (fixedZone offset) (LocalTime (fixedZone offset) (t - int k * msPerDay) - msPerDay)
      = t - int (Suc k) * msPerDay"
    by (simp add: LocalTime_def UTC_def fixedZone_def algebra_simps)
  also from Suc.prems(2,3) le0 have "TimeClip (t - int (Suc k) * msPerDay) = Some (t - int (Suc k) * msPerDay)"
    unfolding TimeClip_def by (simp add: abs_if)
  finally show ?case by simp
qed

text \<open>
  A collection of \<open>n\<close> tasks cannot have a completed task on each of \<open>n + 1\<close> days, since
  the keys of different days differ.
\<close>

lemma some_day_without:
  "\<exists>k \<le> length tasks. \<not> completedOn tasks (utcDayKey now k)"
proof (rule ccontr)
  assume "\<not> (\<exists>k \<le> length tasks. \<not> completedOn tasks (utcDayKey now k))"
  then have all: "\<forall>k \<le> length tasks. completedOn tasks (utcDayKey now k)" by simp
  have "utcDayKey now ` {..length tasks} \<subseteq> date ` set tasks"
  proof
    fix x assume "x \<in> utcDayKey now ` {..length tasks}"
    then obtain k where "k \<le> length tasks" "x = utcDayKey now k" by auto
    with all obtain t where "t \<in> set tasks" "date t = x" by (auto simp: completedOn_def)
    then show "x \<in> date ` set tasks" by (rule image_eqI [OF sym, rotated])
  qed
  moreover have "inj_on (utcDayKey now) {..length tasks}"
    by (rule inj_onI) (rule utcDayKey_inj)
  ultimately have "card {..length tasks} \<le> card (date ` set tasks)"
    by (metis card_image card_mono finite_imageI finite_set)
  also have "\<dots> \<le> card (set tasks)" by (rule card_image_le) simp
  also have "\<dots> \<le> length tasks" by (rule card_length)
  finally show False by simp
qed

text \<open>
  In a zone whose offset never changes, and as long as the walk (at most one day for
  each task) stays inside the range of time values, the loop ends and the streak is
  the number of consecutive UTC days, from the UTC day of \<open>now\<close> backwards, that have a
  completed task. The zone plays no part in the result.
\<close>

lemma streak_counts_UTC_days:
  assumes "\<bar>now\<bar> \<le> maxTime" and "- maxTime \<le> now - int (length tasks) * msPerDay"
  shows "\<exists>n. calculateStreak (fixedZone offset) now tasks = Some (Inr n)
            \<and> (\<forall>k < n. completedOn tasks (utcDayKey now k))
            \<and> \<not> completedOn tasks (utcDayKey now n)"
proof -
  define n where "n = (LEAST k. \<not> completedOn tasks (utcDayKey now k))"
  from some_day_without [of tasks now] obtain k0
    where k0: "k0 \<le> length tasks" "\<not> completedOn tasks (utcDayKey now k0)" by blast
  from k0(2) have stop: "\<not> completedOn tasks (utcDayKey now n)"
    unfolding n_def by (rule LeastI)
  from k0(2) have "n \<le> k0" unfolding n_def by (rule Least_le)
  with k0(1) have nl: "n \<le> length tasks" by simp
  have before: "\<forall>k < n. completedOn tasks (utcDayKey now k)"
    using not_less_Least n_def by blast
  have ms: "0 < msPerDay" by (simp add: msPerDay_def)
  from nl ms have "int n * msPerDay \<le> int (length tasks) * msPerDay" by simp
  with assms(2) have lo: "- maxTime \<le> now - int n * msPerDay" by linarith
  from assms(1) have hi: "now \<le> maxTime" by simp
  from before have "\<forall>j < n. completedOn tasks (isoDate (now - int j * msPerDay))"
    by (simp add: utcDayKey_walk)
  from streakLoop_unroll [OF this lo hi, of offset 0]
  have "streakLoop (fixedZone offset) tasks (Some now) 0
      = streakLoop (fixedZone offset) tasks (Some (now - int n * msPerDay)) n"
    by simp
  also from stop have "\<dots> = Some (Inr n)"
    by (intro streakLoop_stop) (simp add: utcDayKey_walk)
  finally have "calculateStreak (fixedZone offset) now tasks = Some (Inr n)"
    by (simp add: calculateStreak_def)
  with before stop show ?thesis by blast
qed

subsection \<open>A zone with daylight saving: a UTC day is stepped over\<close>

text \<open>
  In New York at 19:30 on 3 November 2024 (2024-11-04T00:30:00Z) the key of the code is
  2024-11-04. One local day back is 19:30 on 2 November, which is 2024-11-02T23:30:00Z,
  since that day had 25 hours: the walk goes from the key 2024-11-04 to the key
  2024-11-02 and never looks at 2024-11-03. With completed tasks dated 2024-11-04 and
  2024-11-03 the streak is 1; in a zone that stays five hours behind UTC it is 2.
\<close>

lemma streak_steps_over_a_UTC_day:
  "setDate newYorkAutumn2024 (Some 1730680200000)
       (map_option (\<lambda>n. n - 1) (getDate newYorkAutumn2024 (Some 1730680200000)))
     = Some 1730590200000
   \<and> isoDate 1730680200000 = ''2024-11-04'' \<and> isoDate 1730590200000 = ''2024-11-02''
   \<and> calculateStreak newYorkAutumn2024 1730680200000
       [mkTask ''a'' ''2024-11-04'' None Low True, mkTask ''b'' ''2024-11-03'' None Low True]
     = Some (Inr 1)
   \<and> calculateStreak (fixedZone (- 18000000)) 1730680200000
       [mkTask ''a'' ''2024-11-04'' None Low True, mkTask ''b'' ''2024-11-03'' None Low True]
     = Some (Inr 2)"
proof -
  have k: "isoDate 1730680200000 = ''2024-11-04''" "isoDate 1730590200000 = ''2024-11-02''"
    "isoDate 1730593800000 = ''2024-11-03''" "isoDate 1730507400000 = ''2024-11-02''"
    by (simp_all add: date_eval)
  have s: "setDate newYorkAutumn2024 (Some 1730680200000)
       (map_option (\<lambda>n. n - 1) (getDate newYorkAutumn2024 (Some 1730680200000)))
     = Some 1730590200000"
    by (simp add: setDate_yesterday LocalTime_def UTC_def newYorkAutumn2024_def TimeClip_def
        maxTime_def msPerDay_def)
  have a: "calculateStreak newYorkAutumn2024 1730680200000
       [mkTask ''a'' ''2024-11-04'' None Low True, mkTask ''b'' ''2024-11-03'' None Low True]
     = Some (Inr 1)"
    by (simp add: streak_eval newYorkAutumn2024_def k)
  have b: "calculateStreak (fixedZone (- 18000000)) 1730680200000
       [mkTask ''a'' ''2024-11-04'' None Low True, mkTask ''b'' ''2024-11-03'' None Low True]
     = Some (Inr 2)"
    by (simp add: streak_eval k)
  from s k(1,2) a b show ?thesis by simp
qed

subsection \<open>The streak against the days of the user\<close>

text \<open>
  Claim C4 says that the streak is the number of consecutive calendar days, from today
  backwards, that have a completed task, and that it is 3 when today, yesterday and the
  day before have one and the day before that has none. The day of the user is the
  local day (claim C3), and the code does not count those days. In a zone five and a
  half hours ahead of UTC, at local midnight at the start of 3 June 2024 (the instant
  2024-06-02T18:30:00Z), today is 2024-06-03, yesterday 2024-06-02, the day before
  2024-06-01 and the day before that 2024-05-31. With a completed task on each of the
  first three and none on the fourth the streak should be 3. The code begins at the
  UTC key 2024-06-02, finds completed tasks on 2024-06-02 and 2024-06-01, and stops at
  2024-05-31: the streak it sets is 2, and the task completed today is not counted.
\<close>

theorem streak_is_not_over_local_days:
  "localDayKey (fixedZone 19800000) 1717353000000 0 = ''2024-06-03''
   \<and> localDayKey (fixedZone 19800000) 1717353000000 1 = ''2024-06-02''
   \<and> localDayKey (fixedZone 19800000) 1717353000000 2 = ''2024-06-01''
   \<and> localDayKey (fixedZone 19800000) 1717353000000 3 = ''2024-05-31''
   \<and> completedOn juneTasks ''2024-06-03'' \<and> completedOn juneTasks ''2024-06-02''
   \<and> completedOn juneTasks ''2024-06-01'' \<and> \<not> completedOn juneTasks ''2024-05-31''
   \<and> dateStr (Some 1717353000000) = Inr ''2024-06-02''
   \<and> calculateStreak (fixedZone 19800000) 1717353000000 juneTasks = Some (Inr 2)"
proof -
  have k: "localDayKey (fixedZone 19800000) 1717353000000 0 = ''2024-06-03''"
    "localDayKey (fixedZone 19800000) 1717353000000 1 = ''2024-06-02''"
    "localDayKey (fixedZone 19800000) 1717353000000 2 = ''2024-06-01''"
    "localDayKey (fixedZone 19800000) 1717353000000 3 = ''2024-05-31''"
    by (simp_all add: localDayKey_def LocalTime_def fixedZone_def date_eval)
  have c: "completedOn juneTasks ''2024-06-03''" "completedOn juneTasks ''2024-06-02''"
    "completedOn juneTasks ''2024-06-01''" "\<not> completedOn juneTasks ''2024-05-31''"
    by (simp_all add: completedOn_def juneTasks_def mkTask_def)
  have d: "dateStr (Some 1717353000000) = Inr ''2024-06-02''"
    by (simp add: dateStr_Some isoDate_examples)
  have s: "calculateStreak (fixedZone 19800000) 1717353000000 juneTasks = Some (Inr 2)"
    by (simp add: streak_eval juneTasks_def isoDate_examples)
  from k c d s show ?thesis by simp
qed

section \<open>Focus timer: a full focus phase\<close>

lemma timerEffect_idem: "timerEffect (timerEffect s) = timerEffect s"
  by (simp add: timerEffect_def)

lemma tick_running:
  "1 < t \<Longrightarrow>
   tick \<lparr>pomodoroTime = t, isRunning = True, isBreak = b, completedPomodoros = c\<rparr>
     = \<lparr>pomodoroTime = t - 1, isRunning = True, isBreak = b, completedPomodoros = c\<rparr>"
  by (simp add: tick_def intervalActive_def timerEffect_def)

lemma ticks_running:
  "int n < t \<Longrightarrow>
   (tick ^^ n) \<lparr>pomodoroTime = t, isRunning = True, isBreak = b, completedPomodoros = c\<rparr>
     = \<lparr>pomodoroTime = t - int n, isRunning = True, isBreak = b, completedPomodoros = c\<rparr>"
proof (induction n)
  case 0
  then show ?case by simp
next
  case (Suc n)
  then have "1 < t - int n" by simp
  with Suc show ?case by (simp add: tick_running)
qed

text \<open>
  Claim C5. From Focus with 25:00 remaining and running, each of the first 1499 ticks
  takes exactly one second off and changes nothing else. The 1500th tick brings the
  remaining time to 0, and the machine makes its one transition: not running, one more
  completed pomodoro, Break with 5:00 remaining. In that state the interval is no longer
  armed, and a further tick changes nothing.
\<close>

theorem focus_1500_ticks:
  "(\<forall>n < 1500.
      (tick ^^ n) \<lparr>pomodoroTime = 25 * 60, isRunning = True, isBreak = False, completedPomodoros = c\<rparr>
        = \<lparr>pomodoroTime = 25 * 60 - int n, isRunning = True, isBreak = False, completedPomodoros = c\<rparr>)
   \<and> (tick ^^ 1500) \<lparr>pomodoroTime = 25 * 60, isRunning = True, isBreak = False, completedPomodoros = c\<rparr>
        = \<lparr>pomodoroTime = 5 * 60, isRunning = False, isBreak = True, completedPomodoros = c + 1\<rparr>
   \<and> \<not> intervalActive \<lparr>pomodoroTime = 5 * 60, isRunning = False, isBreak = True, completedPomodoros = c + 1\<rparr>
   \<and> tick \<lparr>pomodoroTime = 5 * 60, isRunning = False, isBreak = True, completedPomodoros = c + 1\<rparr>
        = \<lparr>pomodoroTime = 5 * 60, isRunning = False, isBreak = True, completedPomodoros = c + 1\<rparr>"
proof -
  let ?s = "\<lparr>pomodoroTime = 25 * 60, isRunning = True, isBreak = False, completedPomodoros = c\<rparr>"
  have a: "\<forall>n < 1500. (tick ^^ n) ?s
        = \<lparr>pomodoroTime = 25 * 60 - int n, isRunning = True, isBreak = False, completedPomodoros = c\<rparr>"
    by (simp add: ticks_running)
  have "(tick ^^ 1499) ?s
        = \<lparr>pomodoroTime = 1, isRunning = True, isBreak = False, completedPomodoros = c\<rparr>"
    using ticks_running [of 1499 "25 * 60" False c] by simp
  moreover have "(tick ^^ 1500) ?s = tick ((tick ^^ 1499) ?s)"
    using funpow.simps(2) [of 1499 tick] by simp
  ultimately have b: "(tick ^^ 1500) ?s
        = \<lparr>pomodoroTime = 5 * 60, isRunning = False, isBreak = True, completedPomodoros = c + 1\<rparr>"
    by (simp add: tick_def intervalActive_def timerEffect_def)
  have c: "\<not> intervalActive \<lparr>pomodoroTime = 5 * 60, isRunning = False, isBreak = True, completedPomodoros = c + 1\<rparr>"
    by (simp add: intervalActive_def)
  then have d: "tick \<lparr>pomodoroTime = 5 * 60, isRunning = False, isBreak = True, completedPomodoros = c + 1\<rparr>
        = \<lparr>pomodoroTime = 5 * 60, isRunning = False, isBreak = True, completedPomodoros = c + 1\<rparr>"
    by (simp add: tick_def)
  from a b c d show ?thesis by blast
qed

theorem focus_1500_ticks_witness:
  "(tick ^^ 3) \<lparr>pomodoroTime = 25 * 60, isRunning = True, isBreak = False, completedPomodoros = 0\<rparr>
        = \<lparr>pomodoroTime = 1497, isRunning = True, isBreak = False, completedPomodoros = 0\<rparr>
   \<and> (tick ^^ 1500) (toggleTimer initialFocusState)
        = \<lparr>pomodoroTime = 300, isRunning = False, isBreak = True, completedPomodoros = 1\<rparr>"
proof -
  have s: "toggleTimer initialFocusState
      = \<lparr>pomodoroTime = 25 * 60, isRunning = True, isBreak = False, completedPomodoros = 0\<rparr>"
    by (simp add: toggleTimer_def initialFocusState_def timerEffect_def)
  have "(3::nat) < 1500" by simp
  with focus_1500_ticks [of 0] s show ?thesis by auto
qed

section \<open>Focus queue: the order of the tasks\<close>

text \<open>
  The queue as claim C6 words it, for the day with the key \<open>today\<close>: the tasks of that
  day that are not completed, the urgent ones first, then the high, the medium and the
  low ones, those of one priority in their input order.
\<close>

definition focusQueue_spec :: "string \<Rightarrow> Task list \<Rightarrow> Task list" where
  "focusQueue_spec today tasks =
     (let q = filter (\<lambda>t. date t = today \<and> \<not> completed t) tasks
      in filter (\<lambda>t. priority t = Urgent) q @ filter (\<lambda>t. priority t = High) q
         @ filter (\<lambda>t. priority t = Medium) q @ filter (\<lambda>t. priority t = Low) q)"

text \<open>Two tasks of 3 June 2024, the low one entered first, and a task of 2 June.\<close>

definition gym :: Task where
  "gym = mkTask ''Gym'' ''2024-06-03'' None Low False"

definition shipReport :: Task where
  "shipReport = mkTask ''Ship report'' ''2024-06-03'' None Urgent False"

definition callHome :: Task where
  "callHome = mkTask ''Call home'' ''2024-06-02'' None Medium False"

text \<open>
  An element that compares greater than each of \<open>as\<close> and not greater than any of \<open>bs\<close>
  is inserted between them.
\<close>

lemma insert_js_between:
  "\<forall>a \<in> set as. \<not> compareFn x a \<le> 0 \<Longrightarrow> \<forall>b \<in> set bs. compareFn x b \<le> 0 \<Longrightarrow>
   insert_js compareFn x (as @ bs) = as @ x # bs"
proof (induction as)
  case Nil
  then show ?case by (cases bs) simp_all
next
  case (Cons a as)
  then show ?case by simp
qed

lemma sort_by_priority:
  "sort_js (\<lambda>a b. priorityOrder (priority a) - priorityOrder (priority b)) q
     = filter (\<lambda>t. priority t = Urgent) q @ filter (\<lambda>t. priority t = High) q
       @ filter (\<lambda>t. priority t = Medium) q @ filter (\<lambda>t. priority t = Low) q"
proof (induction q)
  case Nil
  show ?case by (simp add: sort_js_def)
next
  case (Cons x q)
  let ?cmp = "\<lambda>a b. priorityOrder (priority a) - priorityOrder (priority b)"
  let ?U = "filter (\<lambda>t. priority t = Urgent) q"
  let ?H = "filter (\<lambda>t. priority t = High) q"
  let ?M = "filter (\<lambda>t. priority t = Medium) q"
  let ?L = "filter (\<lambda>t. priority t = Low) q"
  have s: "sort_js ?cmp (x # q) = insert_js ?cmp x (?U @ ?H @ ?M @ ?L)"
    using Cons.IH by (simp add: sort_js_def)
  show ?case
  proof (cases "priority x")
    case Urgent
    then have "insert_js ?cmp x ([] @ (?U @ ?H @ ?M @ ?L)) = [] @ x # (?U @ ?H @ ?M @ ?L)"
      by (intro insert_js_between) auto
    with Urgent show ?thesis unfolding s by simp
  next
    case High
    then have "insert_js ?cmp x (?U @ (?H @ ?M @ ?L)) = ?U @ x # (?H @ ?M @ ?L)"
      by (intro insert_js_between) auto
    with High show ?thesis unfolding s by simp
  next
    case Medium
    then have "insert_js ?cmp x ((?U @ ?H) @ (?M @ ?L)) = (?U @ ?H) @ x # (?M @ ?L)"
      by (intro insert_js_between) auto
    with Medium show ?thesis unfolding s by simp
  next
    case Low
    then have "insert_js ?cmp x ((?U @ ?H @ ?M) @ ?L) = (?U @ ?H @ ?M) @ x # ?L"
      by (intro insert_js_between) auto
    with Low show ?thesis unfolding s by simp
  qed
qed

lemma todayTasks_spec: "todayTasks today tasks = focusQueue_spec today tasks"
  by (simp add: todayTasks_def focusQueue_spec_def Let_def sort_by_priority)

lemma focusQueue_todayTasks: "focusQueue now tasks = Inr (todayTasks (isoDate now) tasks)"
  by (simp add: focusQueue_def dateStr_Some)

text \<open>
  Claim C6 says that the queue holds the tasks dated today, by priority. The order is
  as claimed, and Next Up is the head of the queue; but the day of the queue is the
  UTC day of the clock reading, not the day of the user (the defect of claim C3). In a
  zone five and a half hours ahead of UTC, at local midnight at the start of 3 June
  2024 (the instant 2024-06-02T18:30:00Z), today is 2024-06-03. Of the tasks Gym (low)
  and Ship report (urgent) of 2024-06-03 and Call home of 2024-06-02, the queue of
  today is Ship report, then Gym. The component shows Call home alone, and so Next Up
  is not the urgent task of today.
\<close>

theorem focusQueue_is_of_the_UTC_day:
  "focusQueue now tasks = Inr (focusQueue_spec (isoDate now) tasks)
   \<and> nextUp (focusQueue_spec today tasks)
       = (case focusQueue_spec today tasks of [] \<Rightarrow> None | t # rest \<Rightarrow> Some t)
   \<and> dateKey_spec (fixedZone 19800000) (Some 1717353000000) = Inr ''2024-06-03''
   \<and> focusQueue_spec ''2024-06-03'' [gym, shipReport, callHome] = [shipReport, gym]
   \<and> focusQueue 1717353000000 [gym, shipReport, callHome] = Inr [callHome]
   \<and> nextUp [callHome] = Some callHome"
proof -
  have 1: "focusQueue now tasks = Inr (focusQueue_spec (isoDate now) tasks)"
    by (simp add: focusQueue_todayTasks todayTasks_spec)
  have 2: "nextUp (focusQueue_spec today tasks)
       = (case focusQueue_spec today tasks of [] \<Rightarrow> None | t # rest \<Rightarrow> Some t)"
    by (cases "focusQueue_spec today tasks") (simp_all add: nextUp_def)
  have 3: "dateKey_spec (fixedZone 19800000) (Some 1717353000000) = Inr ''2024-06-03''"
    by (simp add: dateKey_spec_def LocalTime_def fixedZone_def date_eval)
  have 4: "focusQueue_spec ''2024-06-03'' [gym, shipReport, callHome] = [shipReport, gym]"
    by (simp add: focusQueue_spec_def gym_def shipReport_def callHome_def mkTask_def)
  have "focusQueue 1717353000000 [gym, shipReport, callHome]
      = Inr (focusQueue_spec ''2024-06-02'' [gym, shipReport, callHome])"
    by (simp add: focusQueue_todayTasks todayTasks_spec isoDate_examples)
  also have "focusQueue_spec ''2024-06-02'' [gym, shipReport, callHome] = [callHome]"
    by (simp add: focusQueue_spec_def gym_def shipReport_def callHome_def mkTask_def)
  finally have 5: "focusQueue 1717353000000 [gym, shipReport, callHome] = Inr [callHome]" .
  have 6: "nextUp [callHome] = Some callHome" by (simp add: nextUp_def)
  from 1 2 3 4 5 6 show ?thesis by simp
qed

section \<open>Goal tracker: the clamp\<close>

lemma spreadGoal_current: "spreadGoal g (currentUpdate v) = g\<lparr>current := v\<rparr>"
  by (simp add: spreadGoal_def currentUpdate_def orElse_def)

lemma find_by_distinct_id:
  "distinct (map goal_id goals) \<Longrightarrow> k < length goals \<Longrightarrow>
   find (\<lambda>g. goal_id g = goal_id (goals ! k)) goals = Some (goals ! k)"
proof (induction goals arbitrary: k)
  case Nil
  then show ?case by simp
next
  case (Cons g gs)
  show ?case
  proof (cases k)
    case 0
    then show ?thesis by simp
  next
    case (Suc j)
    with Cons.prems have j: "j < length gs" and d: "distinct (map goal_id gs)"
      and n: "goal_id g \<notin> goal_id ` set gs" by auto
    from j n have "goal_id g \<noteq> goal_id (gs ! j)" by (metis imageI nth_mem)
    with Cons.IH [OF d j] Suc show ?thesis by simp
  qed
qed

lemma updateGoal_distinct_id:
  "distinct (map goal_id goals) \<Longrightarrow> k < length goals \<Longrightarrow>
   updateGoal (goal_id (goals ! k)) u goals = goals[k := spreadGoal (goals ! k) u]"
proof (induction goals arbitrary: k)
  case Nil
  then show ?case by simp
next
  case (Cons g gs)
  from Cons.prems have d: "distinct (map goal_id gs)"
    and n: "goal_id g \<notin> goal_id ` set gs" by auto
  show ?case
  proof (cases k)
    case 0
    from n have "\<forall>h \<in> set gs. \<not> goal_id h = goal_id g" by (metis imageI)
    then have "map (\<lambda>h. if goal_id h = goal_id g then spreadGoal h u else h) gs = gs"
      by (rule map_unmatched)
    with 0 show ?thesis by (simp add: updateGoal_def)
  next
    case (Suc j)
    with Cons.prems have j: "j < length gs" by simp
    from j n have "goal_id g \<noteq> goal_id (gs ! j)" by (metis imageI nth_mem)
    with Cons.IH [OF d j] Suc show ?thesis by (simp add: updateGoal_def)
  qed
qed

subsection \<open>Whole numbers up to \<open>2\<^sup>5\<^sup>3\<close> are doubles\<close>

lemma bitLength_le: "n < 2 ^ k \<Longrightarrow> bitLength n \<le> k"
proof (induction k arbitrary: n)
  case 0
  then show ?case by (simp add: bitLength.simps)
next
  case (Suc k)
  from Suc.prems have "n div 2 < 2 ^ k" by simp
  then have "bitLength (n div 2) \<le> k" by (rule Suc.IH)
  then show ?case by (subst bitLength.simps) simp
qed

lemma bitLength_power: "bitLength (2 ^ k) = Suc k"
proof (induction k)
  case 0
  show ?case by (simp add: bitLength.simps [of "Suc 0"] bitLength.simps [of 0])
next
  case (Suc k)
  then show ?case by (subst bitLength.simps) simp
qed

lemma roundToDouble_exact:
  assumes "\<bar>x\<bar> \<le> 2 ^ 53"
  shows "roundToDouble x = x"
proof (cases "\<bar>x\<bar> = 2 ^ 53")
  case True
  then have a: "nat \<bar>x\<bar> = 2 ^ 53" by (simp add: nat_eq_iff)
  have "roundToDouble x = sgn x * int (2 ^ 53)"
    unfolding roundToDouble_def a bitLength_power Let_def by simp
  also have "\<dots> = sgn x * \<bar>x\<bar>" using True by simp
  finally show ?thesis by (simp add: mult_sgn_abs)
next
  case False
  with assms have "nat \<bar>x\<bar> < 2 ^ 53" by (simp add: nat_less_iff)
  then have "bitLength (nat \<bar>x\<bar>) \<le> 53" by (rule bitLength_le)
  then have "roundToDouble x = sgn x * int (nat \<bar>x\<bar>)"
    by (simp add: roundToDouble_def Let_def)
  then show ?thesis by (simp add: mult_sgn_abs)
qed

text \<open>
  Above \<open>2\<^sup>5\<^sup>3\<close> = 9007199254740992 the doubles are the even numbers, then the multiples
  of 4, and so on: \<open>2\<^sup>5\<^sup>3 + 1\<close> is rounded to \<open>2\<^sup>5\<^sup>3\<close> and \<open>2\<^sup>5\<^sup>3 + 3\<close> to \<open>2\<^sup>5\<^sup>3 + 4\<close>.
\<close>

lemma bitLength_54:
  "bitLength 9007199254740993 = 54" "bitLength 9007199254740995 = 54"
proof -
  have lo: "\<And>n. n < 2 ^ 54 \<Longrightarrow> 2 ^ 53 \<le> n \<Longrightarrow> bitLength n = 54"
  proof -
    fix n :: nat assume n: "n < 2 ^ 54" "2 ^ 53 \<le> n"
    from n(1) have u: "bitLength n \<le> 54" by (rule bitLength_le)
    have "\<And>k m. 2 ^ k \<le> m \<Longrightarrow> k < bitLength m"
    proof -
      fix k m show "2 ^ k \<le> m \<Longrightarrow> k < bitLength m"
      proof (induction k arbitrary: m)
        case 0
        then show ?case by (subst bitLength.simps) simp
      next
        case (Suc k)
        from Suc.prems have "2 ^ k \<le> m div 2" by simp
        then have "k < bitLength (m div 2)" by (rule Suc.IH)
        moreover from Suc.prems have "m \<noteq> 0" by (cases "m = 0") simp_all
        ultimately show ?case by (subst bitLength.simps) simp
      qed
    qed
    from this [OF n(2)] u show "bitLength n = 54" by simp
  qed
  show "bitLength 9007199254740993 = 54" by (rule lo) simp_all
  show "bitLength 9007199254740995 = 54" by (rule lo) simp_all
qed

lemma roundToDouble_examples:
  "roundToDouble 9007199254740993 = 9007199254740992"
  "roundToDouble 9007199254740995 = 9007199254740996"
  by (simp_all add: roundToDouble_def bitLength_54 Let_def)

text \<open>
  Claim C7 fails where the doubles thin out. A goal with \<open>current\<close> = \<open>2\<^sup>5\<^sup>3\<close> below its
  \<open>target\<close> is inside \<open>[0, target]\<close> and not at the bound, and \<open>incrementGoal\<close> leaves it
  as it is: \<open>2\<^sup>5\<^sup>3 + 1\<close> is stored as \<open>2\<^sup>5\<^sup>3\<close>. A goal with \<open>current\<close> = \<open>2\<^sup>5\<^sup>3 + 2\<close> loses 2
  by \<open>decrementGoal\<close>.
\<close>

theorem goal_clamp_counterexample:
  "incrementGoal ''g'' [mkGoal ''g'' 9007199254740994 9007199254740992]
     = [mkGoal ''g'' 9007199254740994 9007199254740992]
   \<and> decrementGoal ''g'' [mkGoal ''g'' 9007199254740994 9007199254740994]
     = [mkGoal ''g'' 9007199254740994 9007199254740992]"
  by (simp add: incrementGoal_def decrementGoal_def updateGoal_def spreadGoal_current mkGoal_def
      roundToDouble_examples)

text \<open>
  Claim C7, for the goals whose \<open>current\<close> is below \<open>2\<^sup>5\<^sup>3\<close> = 9007199254740992, or whose
  \<open>target\<close> is \<open>2\<^sup>5\<^sup>3\<close>; these are all the goals on which it holds. In a store whose goal
  ids are distinct, take such a goal with \<open>0 \<le> current \<le> target\<close>. \<open>incrementGoal\<close>
  leaves the whole store unchanged when \<open>current = target\<close> and otherwise adds one to
  the \<open>current\<close> of that goal only; \<open>decrementGoal\<close> leaves the store unchanged when
  \<open>current = 0\<close> and otherwise subtracts one. Either way the goal's \<open>current\<close> stays
  within \<open>[0, target]\<close>. Both functions are total: hitting the bound is not an error.
\<close>

theorem goal_clamp:
  assumes "distinct (map goal_id goals)" and "k < length goals"
    and "0 \<le> current (goals ! k)" and "current (goals ! k) \<le> target (goals ! k)"
    and "current (goals ! k) < 9007199254740992 \<or> target (goals ! k) = 9007199254740992"
  shows "incrementGoal (goal_id (goals ! k)) goals =
           (if current (goals ! k) = target (goals ! k) then goals
            else goals[k := (goals ! k)\<lparr>current := current (goals ! k) + 1\<rparr>])
       \<and> decrementGoal (goal_id (goals ! k)) goals =
           (if current (goals ! k) = 0 then goals
            else goals[k := (goals ! k)\<lparr>current := current (goals ! k) - 1\<rparr>])
       \<and> 0 \<le> current (incrementGoal (goal_id (goals ! k)) goals ! k)
       \<and> current (incrementGoal (goal_id (goals ! k)) goals ! k)
           \<le> target (incrementGoal (goal_id (goals ! k)) goals ! k)
       \<and> 0 \<le> current (decrementGoal (goal_id (goals ! k)) goals ! k)
       \<and> current (decrementGoal (goal_id (goals ! k)) goals ! k)
           \<le> target (decrementGoal (goal_id (goals ! k)) goals ! k)"
proof -
  let ?g = "goals ! k"
  have f: "find (\<lambda>g. goal_id g = goal_id ?g) goals = Some ?g"
    using assms(1,2) by (rule find_by_distinct_id)
  have u: "\<And>v. updateGoal (goal_id ?g) (currentUpdate v) goals = goals[k := ?g\<lparr>current := v\<rparr>]"
    using updateGoal_distinct_id [OF assms(1,2)] by (simp add: spreadGoal_current)
  from assms(4,5) have top: "current ?g \<le> 9007199254740992" by linarith
  have up: "roundToDouble (current ?g + 1) = current ?g + 1" if "current ?g < target ?g"
    using that assms(3,5) by (intro roundToDouble_exact) auto
  have down: "roundToDouble (current ?g - 1) = current ?g - 1" if "0 < current ?g"
    using that top by (intro roundToDouble_exact) simp
  have inc: "incrementGoal (goal_id ?g) goals =
           (if current ?g = target ?g then goals else goals[k := ?g\<lparr>current := current ?g + 1\<rparr>])"
    using assms(4) up by (simp add: incrementGoal_def f u)
  have dec: "decrementGoal (goal_id ?g) goals =
           (if current ?g = 0 then goals else goals[k := ?g\<lparr>current := current ?g - 1\<rparr>])"
    using assms(3) down by (simp add: decrementGoal_def f u)
  have b1: "0 \<le> current (incrementGoal (goal_id ?g) goals ! k)
      \<and> current (incrementGoal (goal_id ?g) goals ! k) \<le> target (incrementGoal (goal_id ?g) goals ! k)"
    unfolding inc using assms(2,3,4) by simp
  have b2: "0 \<le> current (decrementGoal (goal_id ?g) goals ! k)
      \<and> current (decrementGoal (goal_id ?g) goals ! k) \<le> target (decrementGoal (goal_id ?g) goals ! k)"
    unfolding dec using assms(2,3,4) by simp
  from inc dec b1 b2 show ?thesis by blast
qed

theorem goal_clamp_witness:
  "incrementGoal ''g2'' [mkGoal ''g1'' 5 2, mkGoal ''g2'' 3 3] = [mkGoal ''g1'' 5 2, mkGoal ''g2'' 3 3]
   \<and> decrementGoal ''g2'' [mkGoal ''g1'' 5 2, mkGoal ''g2'' 3 3] = [mkGoal ''g1'' 5 2, mkGoal ''g2'' 3 2]
   \<and> incrementGoal ''g1'' [mkGoal ''g1'' 5 2, mkGoal ''g2'' 3 3] = [mkGoal ''g1'' 5 3, mkGoal ''g2'' 3 3]
   \<and> decrementGoal ''g1'' [mkGoal ''g1'' 5 0, mkGoal ''g2'' 3 3] = [mkGoal ''g1'' 5 0, mkGoal ''g2'' 3 3]
   \<and> incrementGoal ''g'' [mkGoal ''g'' 9007199254740992 9007199254740991]
       = [mkGoal ''g'' 9007199254740992 9007199254740992]
   \<and> decrementGoal ''g'' [mkGoal ''g'' 9007199254740992 9007199254740992]
       = [mkGoal ''g'' 9007199254740992 9007199254740991]"
  using goal_clamp [of "[mkGoal ''g1'' 5 2, mkGoal ''g2'' 3 3]" 1]
        goal_clamp [of "[mkGoal ''g1'' 5 2, mkGoal ''g2'' 3 3]" 0]
        goal_clamp [of "[mkGoal ''g1'' 5 0, mkGoal ''g2'' 3 3]" 0]
        goal_clamp [of "[mkGoal ''g'' 9007199254740992 9007199254740991]" 0]
        goal_clamp [of "[mkGoal ''g'' 9007199254740992 9007199254740992]" 0]
  by (simp add: mkGoal_def)

section \<open>Month grid: the layout\<close>



definition weekdayOf :: "int \<Rightarrow> int \<Rightarrow> int \<Rightarrow> int" where
  "weekdayOf y m d = WeekDay (MakeDate (MakeDay y m d) 0)"











lemma Day_MakeDate_0: "Day (MakeDate day 0) = day"
  by (simp add: MakeDate_def Day_def msPerDay_def)







text \<open>
  Known days: 1 January 1970 was a Thursday, 1 January 2000 and 1 June 2024 Saturdays,
  29 February 2024 a Thursday.
\<close>

lemma weekdayOf_known:
  "weekdayOf 1970 0 1 = 4" "weekdayOf 2000 0 1 = 6" "weekdayOf 2024 5 1 = 6"
  "weekdayOf 2024 1 29 = 4"
  by (simp_all add: weekdayOf_def WeekDay_def Day_MakeDate_0 MakeDay_def monthStart_def
      DaysInYear_def DayFromYear_def Let_def)







section \<open>Task store: unknown ids and toggling\<close>

text \<open>
  Claim C9. When no task of the collection has the given id, \<open>updateTask\<close>, \<open>deleteTask\<close>
  and \<open>toggleTaskComplete\<close> each return the collection unchanged. The three functions are
  total: there is no error branch to take.
\<close>

theorem unknown_id_noop:
  assumes "i \<notin> task_id ` set tasks"
  shows "updateTask i updates tasks = tasks
       \<and> deleteTask i tasks = tasks
       \<and> toggleTaskComplete i tasks = tasks"
proof -
  from assms have no: "\<forall>t \<in> set tasks. \<not> task_id t = i" by auto
  have "updateTask i updates tasks = tasks"
    unfolding updateTask_def using no by (rule map_unmatched)
  moreover have "deleteTask i tasks = tasks"
    unfolding deleteTask_def using no by (simp add: filter_id_conv)
  moreover have "toggleTaskComplete i tasks = tasks"
    unfolding toggleTaskComplete_def using no by (rule map_unmatched)
  ultimately show ?thesis by simp
qed

theorem unknown_id_noop_witness:
  "''zz'' \<notin> task_id ` set [mkTask ''a'' ''2024-06-03'' None Urgent False,
                           mkTask ''b'' ''2024-06-03'' (Some ''09:00'') Low True]
   \<and> updateTask ''zz'' (noUpdates\<lparr>u_date := Some ''2024-07-01''\<rparr>)
        [mkTask ''a'' ''2024-06-03'' None Urgent False,
         mkTask ''b'' ''2024-06-03'' (Some ''09:00'') Low True]
      = [mkTask ''a'' ''2024-06-03'' None Urgent False,
         mkTask ''b'' ''2024-06-03'' (Some ''09:00'') Low True]
   \<and> deleteTask ''zz''
        [mkTask ''a'' ''2024-06-03'' None Urgent False,
         mkTask ''b'' ''2024-06-03'' (Some ''09:00'') Low True]
      = [mkTask ''a'' ''2024-06-03'' None Urgent False,
         mkTask ''b'' ''2024-06-03'' (Some ''09:00'') Low True]
   \<and> toggleTaskComplete ''zz''
        [mkTask ''a'' ''2024-06-03'' None Urgent False,
         mkTask ''b'' ''2024-06-03'' (Some ''09:00'') Low True]
      = [mkTask ''a'' ''2024-06-03'' None Urgent False,
         mkTask ''b'' ''2024-06-03'' (Some ''09:00'') Low True]"
proof -
  have h: "''zz'' \<notin> task_id ` set [mkTask ''a'' ''2024-06-03'' None Urgent False,
                           mkTask ''b'' ''2024-06-03'' (Some ''09:00'') Low True]"
    by (simp add: mkTask_def)
  show ?thesis
    using h unknown_id_noop [OF h, of "noUpdates\<lparr>u_date := Some ''2024-07-01''\<rparr>"] by simp
qed

text \<open>
  Claim C10. Toggling the same id twice gives back the original collection. One toggle
  keeps the length, leaves every task with another id as it is, and changes a task with
  the given id in its \<open>completed\<close> flag only, which it negates.
\<close>

theorem toggle_involution:
  "toggleTaskComplete i (toggleTaskComplete i tasks) = tasks
   \<and> length (toggleTaskComplete i tasks) = length tasks
   \<and> (\<forall>k < length tasks.
         (task_id (tasks ! k) \<noteq> i \<longrightarrow> toggleTaskComplete i tasks ! k = tasks ! k)
       \<and> (task_id (tasks ! k) = i \<longrightarrow>
            toggleTaskComplete i tasks ! k = (tasks ! k)\<lparr>completed := \<not> completed (tasks ! k)\<rparr>))"
proof -
  have "toggleTaskComplete i (toggleTaskComplete i tasks) = tasks"
    unfolding toggleTaskComplete_def by (induction tasks) auto
  moreover have "length (toggleTaskComplete i tasks) = length tasks"
    by (simp add: toggleTaskComplete_def)
  moreover have "\<forall>k < length tasks.
         (task_id (tasks ! k) \<noteq> i \<longrightarrow> toggleTaskComplete i tasks ! k = tasks ! k)
       \<and> (task_id (tasks ! k) = i \<longrightarrow>
            toggleTaskComplete i tasks ! k = (tasks ! k)\<lparr>completed := \<not> completed (tasks ! k)\<rparr>)"
    by (simp add: toggleTaskComplete_def)
  ultimately show ?thesis by blast
qed

theorem toggle_involution_witness:
  "toggleTaskComplete ''a'' (toggleTaskComplete ''a''
        [mkTask ''a'' ''2024-06-03'' None Urgent False,
         mkTask ''b'' ''2024-06-03'' (Some ''09:00'') Low True])
      = [mkTask ''a'' ''2024-06-03'' None Urgent False,
         mkTask ''b'' ''2024-06-03'' (Some ''09:00'') Low True]
   \<and> toggleTaskComplete ''a''
        [mkTask ''a'' ''2024-06-03'' None Urgent False,
         mkTask ''b'' ''2024-06-03'' (Some ''09:00'') Low True]
      = [mkTask ''a'' ''2024-06-03'' None Urgent True,
         mkTask ''b'' ''2024-06-03'' (Some ''09:00'') Low True]"
proof -
  have "toggleTaskComplete ''a''
        [mkTask ''a'' ''2024-06-03'' None Urgent False,
         mkTask ''b'' ''2024-06-03'' (Some ''09:00'') Low True]
      = [mkTask ''a'' ''2024-06-03'' None Urgent True,
         mkTask ''b'' ''2024-06-03'' (Some ''09:00'') Low True]"
    by (simp add: toggleTaskComplete_def mkTask_def)
  with toggle_involution [of "''a''" "[mkTask ''a'' ''2024-06-03'' None Urgent False,
         mkTask ''b'' ''2024-06-03'' (Some ''09:00'') Low True]"]
  show ?thesis by blast
qed

end
